theory Spec2Isabelle
  imports Complex_Main "HOL-Library.Multiset"
begin

section \<open>Data model\<close>

text \<open>
  Node, edge and name identifiers are only ever compared for equality by the code
  modelled here, so they are natural numbers. Angles, bearings and distances are C++
  doubles; they are modelled as real numbers, so rounding is not part of the model.
\<close>

type_synonym NodeID = nat
type_synonym EdgeID = nat
type_synonym NameID = nat
type_synonym LaneDataID = nat

record Coordinate =
  lon :: int
  lat :: int

record RoadClassification =
  road_class :: nat
  number_of_lanes :: nat

record NodeBasedEdgeData =
  reversed :: bool
  roundabout :: bool
  travel_mode :: nat
  name_id :: NameID
  road_classification :: RoadClassification

datatype TurnType = Invalid | OtherTurnType nat

datatype DirectionModifier = UTurn | OtherDirection nat

text \<open>
  \<^verbatim>\<open>ConnectedRoad\<close>: a \<^verbatim>\<open>TurnOperation\<close> (edge id, angle, bearing, instruction,
  lane data id) together with the \<^verbatim>\<open>entry_allowed\<close> flag.
\<close>

record ConnectedRoad =
  eid :: EdgeID
  angle :: real
  bearing :: real
  turn_type :: TurnType
  direction_modifier :: DirectionModifier
  lane_data_id :: LaneDataID
  entry_allowed :: bool

type_synonym Intersection = "ConnectedRoad list"

text \<open>
  The members of \<^verbatim>\<open>IntersectionGenerator\<close> and everything else the two source files
  use without defining it: the node based graph, the restriction map, the barrier set,
  the coordinate table and extractor, the geometry of \<^verbatim>\<open>util::coordinate_calculation\<close>,
  the name tables, the angle helpers of the toolkit headers, the graph walker behind
  \<^verbatim>\<open>haveSameDirection\<close>, the comparator handed to \<^verbatim>\<open>std::sort\<close>, and the sentinel
  constants. All of them are parameters; a theorem states what it needs of them.
  \<open>calc_bearing\<close> is \<^verbatim>\<open>util::coordinate_calculation::bearing\<close>, renamed because
  \<open>bearing\<close> is a field of the entries. \<open>getCoordinatesAlongWay\<close> is the lambda of that
  name in \<^verbatim>\<open>haveSameDirection\<close>, \<open>std_sort\<close> is \<^verbatim>\<open>std::sort\<close> with
  \<^verbatim>\<open>ConnectedRoad::compareByAngle\<close>.
\<close>

record IntersectionGenerator =
  GetTarget :: "EdgeID \<Rightarrow> NodeID"
  GetAdjacentEdgeRange :: "NodeID \<Rightarrow> EdgeID list"
  GetEdgeData :: "EdgeID \<Rightarrow> NodeBasedEdgeData"
  GetOutDegree :: "NodeID \<Rightarrow> nat"
  FindEdge :: "NodeID \<Rightarrow> NodeID \<Rightarrow> EdgeID"
  CheckForEmanatingIsOnlyTurn :: "NodeID \<Rightarrow> NodeID \<Rightarrow> NodeID"
  CheckIfTurnIsRestricted :: "NodeID \<Rightarrow> NodeID \<Rightarrow> NodeID \<Rightarrow> bool"
  barrier_nodes :: "NodeID set"
  node_info_list :: "NodeID \<Rightarrow> Coordinate"
  GetCoordinateAlongRoad :: "NodeID \<Rightarrow> EdgeID \<Rightarrow> bool \<Rightarrow> NodeID \<Rightarrow> nat \<Rightarrow> Coordinate"
  getLaneCountAtIntersection :: "NodeID \<Rightarrow> nat"
  calc_bearing :: "Coordinate \<Rightarrow> Coordinate \<Rightarrow> real"
  computeAngle :: "Coordinate \<Rightarrow> Coordinate \<Rightarrow> Coordinate \<Rightarrow> real"
  haversineDistance :: "Coordinate \<Rightarrow> Coordinate \<Rightarrow> real"
  areParallel :: "Coordinate list \<Rightarrow> Coordinate list \<Rightarrow> real \<Rightarrow> bool"
  getCoordinatesAlongWay :: "NodeID \<Rightarrow> EdgeID \<Rightarrow> real \<Rightarrow> Coordinate list"
  SampleCoordinates :: "Coordinate list \<Rightarrow> real \<Rightarrow> real \<Rightarrow> Coordinate list"
  requiresNameAnnounced :: "NameID \<Rightarrow> NameID \<Rightarrow> bool"
  angularDeviation :: "real \<Rightarrow> real \<Rightarrow> real"
  angleBetween :: "real \<Rightarrow> real \<Rightarrow> real"
  std_sort :: "Intersection \<Rightarrow> Intersection"
  SPECIAL_NODEID :: NodeID
  SPECIAL_EDGEID :: EdgeID
  EMPTY_NAMEID :: NameID
  INVALID_LANE_DATAID :: LaneDataID
  INVERT :: bool
  MAXIMAL_ALLOWED_NO_TURN_DEVIATION :: real

text \<open>\<^verbatim>\<open>std::numeric_limits<double>::epsilon()\<close>.\<close>

definition epsilon :: real where
  "epsilon = 1 / 2 ^ 52"

section \<open>The pairwise merge of \<^verbatim>\<open>MergeSegregatedRoads\<close>\<close>

definition merge :: "IntersectionGenerator \<Rightarrow> ConnectedRoad \<Rightarrow> ConnectedRoad \<Rightarrow> ConnectedRoad" where
  "merge g first second =
     (let result = (if entry_allowed first then first else second)
      in result\<lparr>angle := angleBetween g (angle first) (angle second),
                bearing := angleBetween g (bearing first) (bearing second)\<rparr>)"


section \<open>\<^verbatim>\<open>GetConnectedRoads\<close>\<close>

text \<open>
  The lambda that filters the only-restriction: the restriction map's answer is kept
  only when some edge adjacent to \<open>turn_node\<close> leads to it.
\<close>

definition only_restriction_to_node :: "IntersectionGenerator \<Rightarrow> NodeID \<Rightarrow> NodeID \<Rightarrow> NodeID" where
  "only_restriction_to_node g from_node turn_node =
     (let r = CheckForEmanatingIsOnlyTurn g from_node turn_node
      in if r \<noteq> SPECIAL_NODEID g \<and>
            list_ex (\<lambda>onto_edge. r = GetTarget g onto_edge) (GetAdjacentEdgeRange g turn_node)
         then r else SPECIAL_NODEID g)"

text \<open>The counting loop of the dead-end rule.\<close>

definition number_of_emmiting_bidirectional_edges :: "IntersectionGenerator \<Rightarrow> NodeID \<Rightarrow> nat" where
  "number_of_emmiting_bidirectional_edges g turn_node =
     length (filter (\<lambda>edge. \<not> reversed (GetEdgeData g (FindEdge g (GetTarget g edge) turn_node)))
               (GetAdjacentEdgeRange g turn_node))"

text \<open>
  \<^verbatim>\<open>ConnectedRoad(TurnOperation{e, a, b, {TurnType::Invalid, DirectionModifier::UTurn},
  INVALID_LANE_DATAID}, valid)\<close>.
\<close>

definition connected_road :: "IntersectionGenerator \<Rightarrow> EdgeID \<Rightarrow> real \<Rightarrow> real \<Rightarrow> bool \<Rightarrow> ConnectedRoad" where
  "connected_road g e a b valid =
     \<lparr>eid = e, angle = a, bearing = b, turn_type = Invalid, direction_modifier = UTurn,
      lane_data_id = INVALID_LANE_DATAID g, entry_allowed = valid\<rparr>"

text \<open>The variables the scan over the adjacent edges updates.\<close>

record scan_state =
  intersection :: Intersection
  has_uturn_edge :: bool
  uturn_could_be_valid :: bool

text \<open>
  The condition \<open>turn_is_valid\<close> as first computed for \<open>onto_edge\<close>, before the dead-end
  rule.
\<close>

definition turn_is_valid :: "IntersectionGenerator \<Rightarrow> NodeID \<Rightarrow> EdgeID \<Rightarrow> EdgeID \<Rightarrow> bool" where
  "turn_is_valid g from_node via_eid onto_edge =
     (let turn_node = GetTarget g via_eid;
          only_to = only_restriction_to_node g from_node turn_node;
          is_barrier_node = (turn_node \<in> barrier_nodes g);
          to_node = GetTarget g onto_edge
      in \<not> reversed (GetEdgeData g onto_edge) \<and>
         (\<not> is_barrier_node \<or> from_node = to_node) \<and>
         (only_to = SPECIAL_NODEID g \<or> to_node = only_to) \<and>
         \<not> CheckIfTurnIsRestricted g from_node turn_node to_node)"

text \<open>The entry pushed for \<open>onto_edge\<close> by one iteration of the scan.\<close>

definition scanned_road :: "IntersectionGenerator \<Rightarrow> NodeID \<Rightarrow> EdgeID \<Rightarrow> EdgeID \<Rightarrow> ConnectedRoad" where
  "scanned_road g from_node via_eid onto_edge =
     (let turn_node = GetTarget g via_eid;
          is_barrier_node = (turn_node \<in> barrier_nodes g);
          turn_coordinate = node_info_list g turn_node;
          intersection_lanes = getLaneCountAtIntersection g turn_node;
          to_node = GetTarget g onto_edge;
          valid = turn_is_valid g from_node via_eid onto_edge;
          first_coordinate =
            GetCoordinateAlongRoad g from_node via_eid (INVERT g) turn_node intersection_lanes
      in if from_node = to_node then
           connected_road g onto_edge 0 (calc_bearing g turn_coordinate first_coordinate)
             (if valid \<and> \<not> is_barrier_node \<and> GetOutDegree g turn_node > 1
              then number_of_emmiting_bidirectional_edges g turn_node \<le> 1
              else valid)
         else
           (let third_coordinate =
                  GetCoordinateAlongRoad g turn_node onto_edge (\<not> INVERT g) to_node intersection_lanes
            in connected_road g onto_edge
                 (computeAngle g first_coordinate turn_coordinate third_coordinate)
                 (calc_bearing g turn_coordinate third_coordinate) valid))"

text \<open>One iteration of the scan: the entry is pushed and the two flags are updated.\<close>

definition scan_edge :: "IntersectionGenerator \<Rightarrow> NodeID \<Rightarrow> EdgeID \<Rightarrow> EdgeID \<Rightarrow> scan_state \<Rightarrow> scan_state" where
  "scan_edge g from_node via_eid onto_edge st =
     (let road = scanned_road g from_node via_eid onto_edge
      in if from_node = GetTarget g onto_edge then
           st\<lparr>intersection := intersection st @ [road],
              has_uturn_edge := True,
              uturn_could_be_valid := turn_is_valid g from_node via_eid onto_edge\<rparr>
         else
           st\<lparr>intersection := intersection st @ [road],
              has_uturn_edge := (has_uturn_edge st \<or> \<bar>angle road\<bar> < epsilon)\<rparr>)"

definition scan_edges :: "IntersectionGenerator \<Rightarrow> NodeID \<Rightarrow> EdgeID \<Rightarrow> scan_state" where
  "scan_edges g from_node via_eid =
     fold (scan_edge g from_node via_eid) (GetAdjacentEdgeRange g (GetTarget g via_eid))
       \<lparr>intersection = [], has_uturn_edge = False, uturn_could_be_valid = False\<rparr>"

text \<open>The artificial invalid u-turn pushed when the scan found no u-turn edge.\<close>

definition synthetic_uturn :: "IntersectionGenerator \<Rightarrow> NodeID \<Rightarrow> EdgeID \<Rightarrow> ConnectedRoad" where
  "synthetic_uturn g from_node via_eid =
     (let turn_node = GetTarget g via_eid;
          first_coordinate =
            GetCoordinateAlongRoad g from_node via_eid (INVERT g) turn_node
              (number_of_lanes (road_classification (GetEdgeData g via_eid)))
      in connected_road g via_eid 0 (calc_bearing g (node_info_list g turn_node) first_coordinate) False)"

text \<open>The list as it stands just before \<^verbatim>\<open>std::sort\<close>.\<close>

definition unsorted_roads :: "IntersectionGenerator \<Rightarrow> NodeID \<Rightarrow> EdgeID \<Rightarrow> Intersection" where
  "unsorted_roads g from_node via_eid =
     (let st = scan_edges g from_node via_eid
      in if \<not> has_uturn_edge st then intersection st @ [synthetic_uturn g from_node via_eid]
         else intersection st)"

text \<open>
  The \<^verbatim>\<open>while\<close> loop that looks for the u-turn entry after sorting; the result is the
  index \<open>self_u_turn\<close>, which equals the length of the list when the loop runs off its end.
\<close>

fun self_u_turn :: "IntersectionGenerator \<Rightarrow> NodeID \<Rightarrow> Intersection \<Rightarrow> nat" where
  "self_u_turn g from_node [] = 0"
| "self_u_turn g from_node (road # roads) =
     (if angle road < epsilon \<and> from_node \<noteq> GetTarget g (eid road)
      then Suc (self_u_turn g from_node roads) else 0)"

text \<open>
  The source writes \<^verbatim>\<open>intersection[self_u_turn].entry_allowed = true\<close> unchecked; the list
  update of the model leaves the list alone should the index be out of range.
\<close>

definition GetConnectedRoads :: "IntersectionGenerator \<Rightarrow> NodeID \<Rightarrow> EdgeID \<Rightarrow> Intersection" where
  "GetConnectedRoads g from_node via_eid =
     (let st = scan_edges g from_node via_eid;
          sorted_roads = std_sort g (unsorted_roads g from_node via_eid);
          valid_count = length (filter entry_allowed sorted_roads)
      in if 0 = valid_count \<and> uturn_could_be_valid st then
           (let i = self_u_turn g from_node sorted_roads
            in sorted_roads[i := (sorted_roads ! i)\<lparr>entry_allowed := True\<rparr>])
         else sorted_roads)"

section \<open>\<^verbatim>\<open>CanMerge\<close> and the predicates of \<^verbatim>\<open>mergable-roads.hpp\<close>\<close>

definition haveCompatibleRoadData :: "NodeBasedEdgeData \<Rightarrow> NodeBasedEdgeData \<Rightarrow> bool" where
  "haveCompatibleRoadData lhs_edge_data rhs_edge_data =
     (if reversed lhs_edge_data = reversed rhs_edge_data then False
      else if travel_mode lhs_edge_data \<noteq> travel_mode rhs_edge_data then False
      else road_classification lhs_edge_data = road_classification rhs_edge_data)"

text \<open>
  The traversal with the graph walker, the length limited accumulator and the name
  selector is the parameter \<open>getCoordinatesAlongWay\<close>.
\<close>

definition haveSameDirection :: "IntersectionGenerator \<Rightarrow> NodeID \<Rightarrow> ConnectedRoad \<Rightarrow> ConnectedRoad \<Rightarrow> bool" where
  "haveSameDirection g intersection_node lhs rhs =
     (if angularDeviation g (angle lhs) (angle rhs) > 90 then False
      else
        (let coordinates_to_the_left =
               SampleCoordinates g (getCoordinatesAlongWay g intersection_node (eid lhs) 100) 100 5;
             coordinates_to_the_right =
               SampleCoordinates g (getCoordinatesAlongWay g intersection_node (eid rhs) 100) 100 5
         in if length coordinates_to_the_left < 8 \<or> length coordinates_to_the_right < 8 then False
            else
              (let num_lanes = (\<lambda>road. number_of_lanes (road_classification (GetEdgeData g (eid road))));
                   lane_count = max 2 (max (num_lanes lhs) (num_lanes rhs));
                   max_deviation = 4 * sqrt (real lane_count)
               in areParallel g coordinates_to_the_left coordinates_to_the_right max_deviation)))"

text \<open>The narrow-triangle test is guarded by \<^verbatim>\<open>false &&\<close> in the source and never runs.\<close>

definition canMergeRoad :: "IntersectionGenerator \<Rightarrow> NodeID \<Rightarrow> ConnectedRoad \<Rightarrow> ConnectedRoad \<Rightarrow> bool" where
  "canMergeRoad g intersection_node lhs rhs =
     (let lhs_edge_data = GetEdgeData g (eid lhs);
          rhs_edge_data = GetEdgeData g (eid rhs)
      in if roundabout lhs_edge_data \<or> roundabout rhs_edge_data then False
         else if entry_allowed lhs \<and> entry_allowed rhs then False
         else if \<not> haveCompatibleRoadData lhs_edge_data rhs_edge_data then False
         else if angularDeviation g (angle lhs) (angle rhs) > 60 then False
         else if haveSameDirection g intersection_node lhs rhs then True
         else False)"

definition CanMerge :: "IntersectionGenerator \<Rightarrow> NodeID \<Rightarrow> Intersection \<Rightarrow> nat \<Rightarrow> nat \<Rightarrow> bool" where
  "CanMerge g node_at_intersection xs first_index second_index =
     (let first_data = GetEdgeData g (eid (xs ! first_index));
          second_data = GetEdgeData g (eid (xs ! second_index))
      in if length xs \<le> 2 then False
         else if name_id first_data = EMPTY_NAMEID g \<or> name_id second_data = EMPTY_NAMEID g then False
         else if requiresNameAnnounced g (name_id first_data) (name_id second_data) then False
         else if \<not> canMergeRoad g node_at_intersection (xs ! first_index) (xs ! second_index) then False
         else True)"

section \<open>\<^verbatim>\<open>MergeSegregatedRoads\<close>\<close>

definition getRight :: "Intersection \<Rightarrow> nat \<Rightarrow> nat" where
  "getRight xs index = (index + length xs - 1) mod length xs"

text \<open>The loops that add the correction factor to the angles at the indices \<open>lo \<le> i < hi\<close>.\<close>

definition add_to_angles :: "nat \<Rightarrow> nat \<Rightarrow> real \<Rightarrow> Intersection \<Rightarrow> Intersection" where
  "add_to_angles lo hi c xs =
     map (\<lambda>i. if lo \<le> i \<and> i < hi then (xs ! i)\<lparr>angle := angle (xs ! i) + c\<rparr> else xs ! i)
       [0..<length xs]"

text \<open>
  The merges that include the u-turn at slot 0; the first component is \<open>merged_first\<close>.
  The function is only called on lists of at least two entries.
\<close>

definition merge_first :: "IntersectionGenerator \<Rightarrow> NodeID \<Rightarrow> Intersection \<Rightarrow> bool \<times> Intersection" where
  "merge_first g intersection_node xs =
     (if CanMerge g intersection_node xs 0 (length xs - 1) then
        (let correction_factor = (360 - angle (xs ! (length xs - 1))) / 2;
             ys = add_to_angles 1 (length xs - 1) correction_factor xs;
             zs = ys[0 := (merge g (ys ! 0) (ys ! (length ys - 1)))\<lparr>angle := 0\<rparr>]
         in (True, butlast zs))
      else if CanMerge g intersection_node xs 0 1 then
        (let correction_factor = angle (xs ! 1) / 2;
             ys = add_to_angles 2 (length xs) (- correction_factor) xs;
             zs = ys[0 := (merge g (ys ! 0) (ys ! 1))\<lparr>angle := 0\<rparr>]
         in (True, take 1 zs @ drop 2 zs))
      else (False, xs))"

text \<open>
  The loop from index 2 upwards: a mergeable entry is folded into its live right
  neighbour and then carries the sentinel edge id.
\<close>

function sweep :: "IntersectionGenerator \<Rightarrow> NodeID \<Rightarrow> nat \<Rightarrow> Intersection \<Rightarrow> Intersection" where
  "sweep g intersection_node index xs =
     (if index < length xs then
        (let previous_index = getRight xs index
         in if eid (xs ! previous_index) \<noteq> SPECIAL_EDGEID g \<and>
               CanMerge g intersection_node xs index previous_index
            then sweep g intersection_node (Suc index)
                   ((xs[previous_index := merge g (xs ! previous_index) (xs ! index)])
                      [index := ((xs[previous_index := merge g (xs ! previous_index) (xs ! index)]) ! index)
                                  \<lparr>eid := SPECIAL_EDGEID g\<rparr>])
            else sweep g intersection_node (Suc index) xs)
      else xs)"
  by pat_completeness auto
termination
  by (relation "measure (\<lambda>(g, n, index, xs). length xs - index)") auto

declare sweep.simps [simp del]

text \<open>
  The whole step. Writing the debug snapshot when something was merged has no effect on
  the result and is left out.
\<close>

definition MergeSegregatedRoads :: "IntersectionGenerator \<Rightarrow> NodeID \<Rightarrow> Intersection \<Rightarrow> Intersection" where
  "MergeSegregatedRoads g intersection_node xs =
     (if length xs \<le> 1 then xs
      else
        (let is_connected_to_roundabout =
               list_ex (\<lambda>road. roundabout (GetEdgeData g (eid road))) xs;
             first_merge = merge_first g intersection_node xs;
             merged_first = fst first_merge;
             ys = snd first_merge;
             zs = (if merged_first \<and> is_connected_to_roundabout
                   then ys[0 := (ys ! 0)\<lparr>entry_allowed := False\<rparr>] else ys);
             ws = sweep g intersection_node 2 zs
         in std_sort g (filter (\<lambda>road. eid road \<noteq> SPECIAL_EDGEID g) ws)))"

section \<open>\<^verbatim>\<open>AdjustForJoiningRoads\<close>\<close>

definition adjustAngle :: "real \<Rightarrow> real \<Rightarrow> real" where
  "adjustAngle a offset =
     (if a + offset > 360 then a + offset - 360
      else if a + offset < 0 then a + offset + 360
      else a + offset)"

definition get_offset :: "IntersectionGenerator \<Rightarrow> ConnectedRoad \<Rightarrow> ConnectedRoad \<Rightarrow> real" where
  "get_offset g lhs rhs = 0.5 * angularDeviation g (angle lhs) (angle rhs)"

definition get_corrected_offset :: "IntersectionGenerator \<Rightarrow> real \<Rightarrow> ConnectedRoad \<Rightarrow> ConnectedRoad \<Rightarrow> real" where
  "get_corrected_offset g offset road next_road_in_offset_direction =
     (let offset_limit = angularDeviation g (angle road) (angle next_road_in_offset_direction)
      in if offset + MAXIMAL_ALLOWED_NO_TURN_DEVIATION g > offset_limit then 0.5 * offset_limit
         else offset)"

text \<open>The three tests that end an iteration of the loop with \<^verbatim>\<open>continue\<close>.\<close>

definition skips_road :: "IntersectionGenerator \<Rightarrow> NodeID \<Rightarrow> ConnectedRoad \<Rightarrow> bool" where
  "skips_road g node_at_intersection road =
     (length (GetConnectedRoads g node_at_intersection (eid road)) \<le> 1 \<or>
      haversineDistance g (node_info_list g node_at_intersection)
        (node_info_list g (GetTarget g (eid road))) > 30 \<or>
      length (GetAdjacentEdgeRange g (GetTarget g (eid road))) \<le> 1)"

text \<open>The body of the loop at one index.\<close>

definition adjust_road :: "IntersectionGenerator \<Rightarrow> NodeID \<Rightarrow> nat \<Rightarrow> Intersection \<Rightarrow> Intersection" where
  "adjust_road g node_at_intersection index xs =
     (let road = xs ! index;
          next_intersection_along_road = GetConnectedRoads g node_at_intersection (eid road);
          node_at_next_intersection = GetTarget g (eid road)
      in if skips_road g node_at_intersection road then xs
         else if CanMerge g node_at_next_intersection next_intersection_along_road 0 1 then
           (let offset = get_offset g (next_intersection_along_road ! 0)
                           (next_intersection_along_road ! 1);
                corrected_offset =
                  get_corrected_offset g offset road (xs ! ((index + 1) mod length xs))
            in xs[index := road\<lparr>angle := adjustAngle (angle road) corrected_offset,
                                 bearing := adjustAngle (bearing road) corrected_offset\<rparr>])
         else if CanMerge g node_at_next_intersection next_intersection_along_road 0
                   (length next_intersection_along_road - 1) then
           (let offset = get_offset g (next_intersection_along_road ! 0)
                           (next_intersection_along_road ! (length next_intersection_along_road - 1));
                corrected_offset = get_corrected_offset g offset road (xs ! (index - 1))
            in xs[index := road\<lparr>angle := adjustAngle (angle road) (- corrected_offset),
                                 bearing := adjustAngle (bearing road) (- corrected_offset)\<rparr>])
         else xs)"

function adjust_loop :: "IntersectionGenerator \<Rightarrow> NodeID \<Rightarrow> nat \<Rightarrow> Intersection \<Rightarrow> Intersection" where
  "adjust_loop g node_at_intersection index xs =
     (if index < length xs
      then adjust_loop g node_at_intersection (Suc index) (adjust_road g node_at_intersection index xs)
      else xs)"
  by pat_completeness auto
termination
  by (relation "measure (\<lambda>(g, n, index, xs). length xs - index)")
     (auto simp: adjust_road_def Let_def)

declare adjust_loop.simps [simp del]

definition AdjustForJoiningRoads :: "IntersectionGenerator \<Rightarrow> NodeID \<Rightarrow> Intersection \<Rightarrow> Intersection" where
  "AdjustForJoiningRoads g node_at_intersection xs =
     (if length xs \<le> 1 then xs else adjust_loop g node_at_intersection 1 xs)"

section \<open>\<^verbatim>\<open>IntersectionGenerator::operator()\<close>\<close>

definition generate :: "IntersectionGenerator \<Rightarrow> NodeID \<Rightarrow> EdgeID \<Rightarrow> Intersection" where
  "generate g from_node via_eid =
     (let xs = GetConnectedRoads g from_node via_eid;
          node_at_intersection = GetTarget g via_eid
      in AdjustForJoiningRoads g node_at_intersection
           (MergeSegregatedRoads g node_at_intersection xs))"

section \<open>Predicates of the statements\<close>

text \<open>
  Some pair that \<^verbatim>\<open>MergeSegregatedRoads\<close> tests satisfies \<^verbatim>\<open>CanMerge\<close>: slot 0 with the
  last entry, slot 0 with slot 1, or an entry at index 2 or above with its right
  neighbour.
\<close>

definition mergeable_pair :: "IntersectionGenerator \<Rightarrow> NodeID \<Rightarrow> Intersection \<Rightarrow> bool" where
  "mergeable_pair g intersection_node xs =
     (CanMerge g intersection_node xs 0 (length xs - 1) \<or>
      CanMerge g intersection_node xs 0 1 \<or>
      list_ex (\<lambda>index. CanMerge g intersection_node xs index (getRight xs index)) [2..<length xs])"

text \<open>The angle and the bearing of an entry lie in the closed range from 0 to 360.\<close>

definition in_closed_range :: "ConnectedRoad \<Rightarrow> bool" where
  "in_closed_range road =
     (0 \<le> angle road \<and> angle road \<le> 360 \<and> 0 \<le> bearing road \<and> bearing road \<le> 360)"

text \<open>
  The distance of two angles on the circle of 360 degrees, and the midpoint of the shorter
  arc between two angles \<open>a\<close> and \<open>b\<close>: an angle in the half-open range from 0 to 360 that lies
  at half their distance from each of them.
\<close>

definition cyclic_distance :: "real \<Rightarrow> real \<Rightarrow> real" where
  "cyclic_distance a b = min \<bar>a - b\<bar> (360 - \<bar>a - b\<bar>)"

definition shorter_arc_midpoint :: "real \<Rightarrow> real \<Rightarrow> real \<Rightarrow> bool" where
  "shorter_arc_midpoint m a b =
     (0 \<le> m \<and> m < 360 \<and>
      cyclic_distance m a = cyclic_distance a b / 2 \<and>
      cyclic_distance m b = cyclic_distance a b / 2)"

section \<open>Concrete generators\<close>

text \<open>
  Small road networks on which the theorems below are evaluated. A network is given by
  tables: the target of each edge, the adjacent edges of each node, the data of each
  edge, the turn angle from an incoming edge onto an outgoing edge, and the bearing at
  each edge. A coordinate along an edge carries the edge id, so that the geometry
  functions can look the tables up. The angle helpers are the usual cyclic distance and
  the midpoint of the shorter arc, and the sort is insertion sort by angle.
\<close>

definition example_data :: "bool \<Rightarrow> NameID \<Rightarrow> NodeBasedEdgeData" where
  "example_data r nm =
     \<lparr>reversed = r, roundabout = False, travel_mode = 1, name_id = nm,
      road_classification = \<lparr>road_class = 1, number_of_lanes = 1\<rparr>\<rparr>"

definition example_generator ::
  "(EdgeID \<Rightarrow> NodeID) \<Rightarrow> (NodeID \<Rightarrow> EdgeID list) \<Rightarrow> (EdgeID \<Rightarrow> NodeBasedEdgeData) \<Rightarrow>
   (EdgeID \<Rightarrow> EdgeID \<Rightarrow> real) \<Rightarrow> (EdgeID \<Rightarrow> real) \<Rightarrow> NodeID set \<Rightarrow> IntersectionGenerator" where
  "example_generator tgt adj dat ang bear barriers =
     \<lparr>GetTarget = tgt,
      GetAdjacentEdgeRange = adj,
      GetEdgeData = dat,
      GetOutDegree = (\<lambda>n. length (adj n)),
      FindEdge = (\<lambda>a b. case find (\<lambda>e. tgt e = b) (adj a) of Some e \<Rightarrow> e | None \<Rightarrow> 1000),
      CheckForEmanatingIsOnlyTurn = (\<lambda>a b. 1000),
      CheckIfTurnIsRestricted = (\<lambda>a b c. False),
      barrier_nodes = barriers,
      node_info_list = (\<lambda>n. \<lparr>lon = int n, lat = 0\<rparr>),
      GetCoordinateAlongRoad = (\<lambda>a e inv b lanes. \<lparr>lon = int e, lat = 1\<rparr>),
      getLaneCountAtIntersection = (\<lambda>n. 1),
      calc_bearing = (\<lambda>a c. bear (nat (lon c))),
      computeAngle = (\<lambda>a b c. ang (nat (lon a)) (nat (lon c))),
      haversineDistance = (\<lambda>a b. 20),
      areParallel = (\<lambda>l r d. True),
      getCoordinatesAlongWay = (\<lambda>n e len. replicate 8 \<lparr>lon = int e, lat = 1\<rparr>),
      SampleCoordinates = (\<lambda>cs len stride. cs),
      requiresNameAnnounced = (\<lambda>a b. a \<noteq> b),
      angularDeviation = (\<lambda>a b. min (360 - \<bar>a - b\<bar>) \<bar>a - b\<bar>),
      angleBetween = (\<lambda>a b. if \<bar>a - b\<bar> \<le> 180 then (a + b) / 2
                              else if (a + b) / 2 < 180 then (a + b) / 2 + 180
                              else (a + b) / 2 - 180),
      std_sort = sort_key angle,
      SPECIAL_NODEID = 1000,
      SPECIAL_EDGEID = 1000,
      EMPTY_NAMEID = 0,
      INVALID_LANE_DATAID = 1000,
      INVERT = True,
      MAXIMAL_ALLOWED_NO_TURN_DEVIATION = 3\<rparr>"

text \<open>
  A street arriving at node 10 from node 0 over edge 0. Node 10 has the unnamed way back
  (edge 11) and three carriageways of one name: edge 2 is a one-way leaving node 10, edges
  3 and 4 are the reversed placeholders of one-ways arriving at it. Edges 5, 6 and 7 are
  the opposite directions of edges 2, 3 and 4.
\<close>

definition three_carriageways :: IntersectionGenerator where
  "three_carriageways =
     example_generator
       (\<lambda>e. if e = 0 then 10 else if e = 11 then 0 else if e = 2 then 2 else if e = 3 then 3
             else if e = 4 then 4 else 10)
       (\<lambda>n. if n = 10 then [11, 2, 3, 4] else if n = 0 then [0] else if n = 2 then [5]
             else if n = 3 then [6] else if n = 4 then [7] else [])
       (\<lambda>e. if e = 0 \<or> e = 11 then example_data False 0
             else if e = 2 \<or> e = 6 \<or> e = 7 then example_data False 7
             else example_data True 7)
       (\<lambda>via onto. if onto = 2 then 100 else if onto = 3 then 120 else if onto = 4 then 140 else 0)
       (\<lambda>e. if e = 0 then 0 else if e = 2 then 100 else if e = 3 then 120 else if e = 4 then 140
             else 0)
       {}"


text \<open>A dead end: node 10 has the way back to node 0 (edge 11) and nothing else.\<close>

definition dead_end :: IntersectionGenerator where
  "dead_end =
     example_generator (\<lambda>e. if e = 0 then 10 else 0)
       (\<lambda>n. if n = 10 then [11] else if n = 0 then [0] else [])
       (\<lambda>e. example_data False 5) (\<lambda>via onto. 0) (\<lambda>e. 90) {}"


text \<open>
  Node 10 has a single adjacent edge, edge 2 to node 2, and no edge back to node 0; the
  turn angle from edge 0 onto edge 2 is the parameter.
\<close>

definition one_way_street :: "real \<Rightarrow> IntersectionGenerator" where
  "one_way_street a =
     example_generator (\<lambda>e. if e = 0 then 10 else 2)
       (\<lambda>n. if n = 10 then [2] else if n = 0 then [0] else [])
       (\<lambda>e. example_data False 5) (\<lambda>via onto. a) (\<lambda>e. if e = 2 then 270 else 90) {}"

text \<open>
  A street arriving at node 10 from node 0 over edge 0. Node 10 has the unnamed way back
  (edge 11), a one-way road to node 2 (edge 2) and a two-way road of another name to the
  dead end node 3 (edge 3). Node 2 lies 20 m from node 10; there the road forks: edge 4
  is the reversed placeholder of the one-way, edge 5 carries its name on, 40 degrees off
  the way back, and edge 6 is a side road. The bearing at edge 2 is 340 degrees.
\<close>

definition joining_roads :: IntersectionGenerator where
  "joining_roads =
     example_generator
       (\<lambda>e. if e = 0 then 10 else if e = 11 then 0 else if e = 2 then 2 else if e = 3 then 3
             else if e = 4 then 10 else if e = 5 then 4 else if e = 6 then 5 else 10)
       (\<lambda>n. if n = 0 then [0] else if n = 10 then [11, 2, 3] else if n = 2 then [4, 5, 6]
             else if n = 3 then [7] else [])
       (\<lambda>e. if e = 0 \<or> e = 11 then example_data False 0
             else if e = 2 \<or> e = 5 then example_data False 7
             else if e = 4 then example_data True 7
             else example_data False 9)
       (\<lambda>via onto. if onto = 2 then 100 else if onto = 3 then 200 else if onto = 5 then 40
             else if onto = 6 then 200 else 0)
       (\<lambda>e. if e = 0 then 170 else if e = 2 then 340 else if e = 3 then 80 else if e = 5 then 20
             else if e = 6 then 180 else 0)
       {}"

section \<open>Unfolding the concrete generators\<close>

lemmas example_defs = example_generator_def example_data_def

section \<open>Facts about \<^verbatim>\<open>GetConnectedRoads\<close>\<close>

subsection \<open>The scan over the adjacent edges\<close>

lemma scan_edge_intersection:
  "intersection (scan_edge g f v e st) = intersection st @ [scanned_road g f v e]"
  by (simp add: scan_edge_def Let_def)

lemma scan_edge_has_uturn_edge:
  "has_uturn_edge (scan_edge g f v e st) =
     (has_uturn_edge st \<or> f = GetTarget g e \<or> \<bar>angle (scanned_road g f v e)\<bar> < epsilon)"
  by (simp add: scan_edge_def Let_def)

lemma scan_edge_uturn_could_be_valid:
  "uturn_could_be_valid (scan_edge g f v e st) =
     (if f = GetTarget g e then turn_is_valid g f v e else uturn_could_be_valid st)"
  by (simp add: scan_edge_def Let_def)

lemma fold_scan_edge_intersection:
  "intersection (fold (scan_edge g f v) es st) = intersection st @ map (scanned_road g f v) es"
  by (induction es arbitrary: st) (simp_all add: scan_edge_intersection)

lemma fold_scan_edge_has_uturn_edge:
  "has_uturn_edge (fold (scan_edge g f v) es st) =
     (has_uturn_edge st \<or>
      (\<exists>e\<in>set es. f = GetTarget g e \<or> \<bar>angle (scanned_road g f v e)\<bar> < epsilon))"
  by (induction es arbitrary: st) (auto simp: scan_edge_has_uturn_edge)

lemma fold_scan_edge_uturn_could_be_valid:
  "uturn_could_be_valid (fold (scan_edge g f v) es st) \<Longrightarrow>
     uturn_could_be_valid st \<or> (\<exists>e\<in>set es. f = GetTarget g e)"
proof (induction es arbitrary: st)
  case Nil
  then show ?case by simp
next
  case (Cons a es)
  from Cons.prems have "uturn_could_be_valid (fold (scan_edge g f v) es (scan_edge g f v a st))"
    by simp
  from Cons.IH [OF this] show ?case
    by (auto simp: scan_edge_uturn_could_be_valid split: if_splits)
qed

lemma scan_edges_intersection:
  "intersection (scan_edges g f v) =
     map (scanned_road g f v) (GetAdjacentEdgeRange g (GetTarget g v))"
  by (simp add: scan_edges_def fold_scan_edge_intersection)

lemma scan_edges_has_uturn_edge:
  "has_uturn_edge (scan_edges g f v) =
     (\<exists>e\<in>set (GetAdjacentEdgeRange g (GetTarget g v)).
        f = GetTarget g e \<or> \<bar>angle (scanned_road g f v e)\<bar> < epsilon)"
  by (simp add: scan_edges_def fold_scan_edge_has_uturn_edge)

lemma scan_edges_uturn_could_be_valid:
  "uturn_could_be_valid (scan_edges g f v) \<Longrightarrow>
     \<exists>e\<in>set (GetAdjacentEdgeRange g (GetTarget g v)). f = GetTarget g e"
  using fold_scan_edge_uturn_could_be_valid [of g f v _ "\<lparr>intersection = [], has_uturn_edge = False, uturn_could_be_valid = False\<rparr>"]
  by (simp add: scan_edges_def)

lemma eid_scanned_road [simp]: "eid (scanned_road g f v e) = e"
  by (simp add: scanned_road_def connected_road_def Let_def)

lemma unsorted_roads_eq:
  "unsorted_roads g f v =
     map (scanned_road g f v) (GetAdjacentEdgeRange g (GetTarget g v)) @
       (if has_uturn_edge (scan_edges g f v) then [] else [synthetic_uturn g f v])"
  by (simp add: unsorted_roads_def Let_def scan_edges_intersection)

lemma map_eid_scanned: "map eid (map (scanned_road g f v) es) = es"
  by (induction es) simp_all

lemma synthetic_uturn_fields:
  "eid (synthetic_uturn g f v) = v" "angle (synthetic_uturn g f v) = 0"
  "\<not> entry_allowed (synthetic_uturn g f v)"
  by (simp_all add: synthetic_uturn_def connected_road_def Let_def)

lemma map_eid_allow: "map eid (xs[i := (xs ! i)\<lparr>entry_allowed := True\<rparr>]) = map eid xs"
  by (cases "i < length xs") (simp_all add: map_update list_update_same_conv list_update_beyond)

lemma map_eid_GetConnectedRoads:
  "map eid (GetConnectedRoads g f v) = map eid (std_sort g (unsorted_roads g f v))"
  by (simp add: GetConnectedRoads_def Let_def map_eid_allow)

lemma no_uturn_edge_no_fixup:
  assumes "\<not> has_uturn_edge (scan_edges g f v)"
  shows "GetConnectedRoads g f v = std_sort g (unsorted_roads g f v)"
proof -
  have "\<not> uturn_could_be_valid (scan_edges g f v)"
    using assms scan_edges_uturn_could_be_valid [of g f v]
    by (auto simp: scan_edges_has_uturn_edge)
  then show ?thesis
    by (simp add: GetConnectedRoads_def Let_def)
qed

lemma mset_eid_GetConnectedRoads:
  assumes "\<forall>xs. mset (std_sort g xs) = mset xs"
  shows "mset (map eid (GetConnectedRoads g f v)) =
           mset (GetAdjacentEdgeRange g (GetTarget g v)) +
           (if has_uturn_edge (scan_edges g f v) then {#} else {#v#})"
proof -
  have "mset (map eid (std_sort g xs)) = mset (map eid xs)" for xs
    using assms by simp
  then show ?thesis
    by (simp add: map_eid_GetConnectedRoads unsorted_roads_eq synthetic_uturn_fields
          image_mset.compositionality comp_def)
qed

lemma length_std_sort:
  assumes "\<forall>xs. mset (std_sort g xs) = mset xs"
  shows "length (std_sort g xs) = length xs"
  using assms by (metis size_mset)

text \<open>
  The index found by the loop after sorting is inside the list whenever the fix-up runs,
  so the unchecked write of the source never leaves the vector.
\<close>

lemma self_u_turn_less:
  "\<exists>r\<in>set xs. GetTarget g (eid r) = f \<Longrightarrow> self_u_turn g f xs < length xs"
  by (induction xs) auto

lemma fixup_index_in_range:
  assumes "\<forall>xs. mset (std_sort g xs) = mset xs"
    and "uturn_could_be_valid (scan_edges g f v)"
  shows "self_u_turn g f (std_sort g (unsorted_roads g f v))
           < length (std_sort g (unsorted_roads g f v))"
proof -
  from assms(2) obtain e where e: "e \<in> set (GetAdjacentEdgeRange g (GetTarget g v))" "f = GetTarget g e"
    using scan_edges_uturn_could_be_valid by blast
  then have "scanned_road g f v e \<in> set (unsorted_roads g f v)"
    by (simp add: unsorted_roads_eq)
  moreover have "set (std_sort g (unsorted_roads g f v)) = set (unsorted_roads g f v)"
    using assms(1) by (metis set_mset_mset)
  ultimately have "\<exists>r\<in>set (std_sort g (unsorted_roads g f v)). GetTarget g (eid r) = f"
    using e(2) by force
  then show ?thesis by (rule self_u_turn_less)
qed

subsection \<open>The concrete networks\<close>

lemmas raw_defs = GetConnectedRoads_def scan_edges_def scan_edge_def scanned_road_def
  turn_is_valid_def only_restriction_to_node_def number_of_emmiting_bidirectional_edges_def
  connected_road_def unsorted_roads_def synthetic_uturn_def epsilon_def Let_def

lemma sort_key_permutes: "\<forall>xs. mset (sort_key angle xs) = mset xs"
  by simp

lemma example_generator_sort: "std_sort (example_generator t a d an b bs) = sort_key angle"
  by (simp add: example_generator_def)

lemma three_carriageways_raw:
  "GetConnectedRoads three_carriageways 0 0 =
     [connected_road three_carriageways 11 0 0 False,
      connected_road three_carriageways 2 100 100 True,
      connected_road three_carriageways 3 120 120 False,
      connected_road three_carriageways 4 140 140 False]"
  by (simp add: three_carriageways_def example_defs raw_defs)



subsection \<open>The u-turn edge\<close>




subsection \<open>The artificial u-turn\<close>

text \<open>
  Claim C7, as stated, fails on the code: the scan also counts as a u-turn edge an
  adjacent edge that does not lead back to \<open>from_node\<close> but whose angle is below machine
  epsilon. On the one-way street with turn angle 0, the only adjacent edge leads on to
  node 2, so no u-turn edge exists, and yet no artificial entry is appended: the result
  is the single entry of edge 2.
\<close>

theorem no_edge_back_nothing_appended_counterexample:
  "GetAdjacentEdgeRange (one_way_street 0) (GetTarget (one_way_street 0) 0) = [2] \<and>
   GetTarget (one_way_street 0) 2 \<noteq> 0 \<and>
   eid (synthetic_uturn (one_way_street 0) 0 0) = 0 \<and>
   GetConnectedRoads (one_way_street 0) 0 0 = [connected_road (one_way_street 0) 2 0 270 True] \<and>
   map eid (GetConnectedRoads (one_way_street 0) 0 0) = [2] \<and>
   synthetic_uturn (one_way_street 0) 0 0 \<notin> set (GetConnectedRoads (one_way_street 0) 0 0)"
  by (simp add: one_way_street_def example_defs raw_defs)

text \<open>
  Claim C7, amended: provided \<^verbatim>\<open>std::sort\<close> permutes its input, when no adjacent edge
  leads back to \<open>from_node\<close> and no adjacent edge has an angle of absolute value
  below machine epsilon, the result is the sorted list of the scanned entries and exactly
  one artificial entry with the edge id \<open>via_eid\<close>, angle 0 and \<open>entry_allowed = False\<close>, so
  that its edge ids are the adjacent edges of the target node and \<open>via_eid\<close> once; otherwise
  nothing is appended: the result has one entry for each adjacent edge and its edge ids
  are exactly the adjacent edges.
\<close>

theorem synthetic_uturn_appended:
  assumes "\<forall>xs. mset (std_sort g xs) = mset xs"
  shows "((\<forall>e\<in>set (GetAdjacentEdgeRange g (GetTarget g via_eid)).
             GetTarget g e \<noteq> from_node \<and>
             \<not> \<bar>angle (scanned_road g from_node via_eid e)\<bar> < epsilon) \<longrightarrow>
            GetConnectedRoads g from_node via_eid =
              std_sort g (map (scanned_road g from_node via_eid)
                            (GetAdjacentEdgeRange g (GetTarget g via_eid)) @
                          [synthetic_uturn g from_node via_eid]) \<and>
            mset (GetConnectedRoads g from_node via_eid) =
              mset (map (scanned_road g from_node via_eid) (GetAdjacentEdgeRange g (GetTarget g via_eid))) +
                {#synthetic_uturn g from_node via_eid#} \<and>
            mset (map eid (GetConnectedRoads g from_node via_eid)) =
              mset (GetAdjacentEdgeRange g (GetTarget g via_eid)) + {#via_eid#}) \<and>
         (\<not> (\<forall>e\<in>set (GetAdjacentEdgeRange g (GetTarget g via_eid)).
               GetTarget g e \<noteq> from_node \<and>
               \<not> \<bar>angle (scanned_road g from_node via_eid e)\<bar> < epsilon) \<longrightarrow>
            length (GetConnectedRoads g from_node via_eid) =
              length (GetAdjacentEdgeRange g (GetTarget g via_eid)) \<and>
            mset (map eid (GetConnectedRoads g from_node via_eid)) =
              mset (GetAdjacentEdgeRange g (GetTarget g via_eid))) \<and>
         eid (synthetic_uturn g from_node via_eid) = via_eid \<and>
         angle (synthetic_uturn g from_node via_eid) = 0 \<and>
         \<not> entry_allowed (synthetic_uturn g from_node via_eid)"
proof -
  let ?es = "GetAdjacentEdgeRange g (GetTarget g via_eid)"
  have h: "has_uturn_edge (scan_edges g from_node via_eid) =
             (\<not> (\<forall>e\<in>set ?es. GetTarget g e \<noteq> from_node \<and>
                   \<not> \<bar>angle (scanned_road g from_node via_eid e)\<bar> < epsilon))"
    unfolding scan_edges_has_uturn_edge by auto
  have raw: "GetConnectedRoads g from_node via_eid = std_sort g (unsorted_roads g from_node via_eid)"
    if "\<not> has_uturn_edge (scan_edges g from_node via_eid)"
    using that by (rule no_uturn_edge_no_fixup)
  have len: "length (GetConnectedRoads g from_node via_eid) = length (unsorted_roads g from_node via_eid)"
    using length_std_sort [OF assms] by (simp add: GetConnectedRoads_def Let_def)
  show ?thesis
  proof (cases "has_uturn_edge (scan_edges g from_node via_eid)")
    case True
    then show ?thesis
      using len mset_eid_GetConnectedRoads [OF assms, of from_node via_eid] h
      by (simp add: unsorted_roads_eq synthetic_uturn_fields)
  next
    case False
    then show ?thesis
      using raw len mset_eid_GetConnectedRoads [OF assms, of from_node via_eid] h assms
      by (simp add: unsorted_roads_eq synthetic_uturn_fields)
  qed
qed

theorem synthetic_uturn_appended_witness:
  "GetAdjacentEdgeRange (one_way_street 90) (GetTarget (one_way_street 90) 0) = [2] \<and>
   GetTarget (one_way_street 90) 2 \<noteq> 0 \<and>
   \<not> \<bar>angle (scanned_road (one_way_street 90) 0 0 2)\<bar> < epsilon \<and>
   GetConnectedRoads (one_way_street 90) 0 0 =
     [connected_road (one_way_street 90) 0 0 90 False,
      connected_road (one_way_street 90) 2 90 270 True] \<and>
   mset (map eid (GetConnectedRoads (one_way_street 90) 0 0)) = {#0, 2#} \<and>
   GetAdjacentEdgeRange dead_end (GetTarget dead_end 0) = [11] \<and>
   GetTarget dead_end 11 = 0 \<and>
   length (GetConnectedRoads dead_end 0 0) = 1 \<and>
   mset (map eid (GetConnectedRoads dead_end 0 0)) = {#11#}"
proof -
  let ?h = "one_way_street 90"
  have s: "\<forall>xs. mset (std_sort ?h xs) = mset xs"
    "\<forall>xs. mset (std_sort dead_end xs) = mset xs"
    by (simp_all add: one_way_street_def dead_end_def example_generator_sort)
  have e: "GetAdjacentEdgeRange ?h (GetTarget ?h 0) = [2]" "GetTarget ?h 2 = 2"
    "GetAdjacentEdgeRange dead_end (GetTarget dead_end 0) = [11]" "GetTarget dead_end 11 = 0"
    by (simp_all add: one_way_street_def dead_end_def example_defs)
  have a: "angle (scanned_road ?h 0 0 2) = 90" "\<not> 90 < epsilon"
    by (simp_all add: one_way_street_def example_defs scanned_road_def connected_road_def epsilon_def)
  have r: "scanned_road ?h 0 0 2 = connected_road ?h 2 90 270 True"
    "synthetic_uturn ?h 0 0 = connected_road ?h 0 0 90 False"
    by (simp_all add: one_way_street_def example_defs raw_defs)
  have so: "std_sort ?h = sort_key angle"
    by (simp add: one_way_street_def example_generator_sort)
  have c: "\<forall>e\<in>set (GetAdjacentEdgeRange ?h (GetTarget ?h 0)).
             GetTarget ?h e \<noteq> 0 \<and> \<not> \<bar>angle (scanned_road ?h 0 0 e)\<bar> < epsilon"
    using e a by simp
  note t = synthetic_uturn_appended [OF s(1), of 0 0, THEN conjunct1, THEN mp, OF c]
  from t [THEN conjunct1]
  have app: "GetConnectedRoads ?h 0 0 = std_sort ?h [scanned_road ?h 0 0 2, synthetic_uturn ?h 0 0]"
    by (simp add: e)
  from t [THEN conjunct2, THEN conjunct2]
  have ids: "mset (map eid (GetConnectedRoads ?h 0 0)) = {#0, 2#}"
    by (simp add: e)
  from app have app': "GetConnectedRoads ?h 0 0 =
      [connected_road ?h 0 0 90 False, connected_road ?h 2 90 270 True]"
    unfolding so r by (simp add: connected_road_def)
  have n: "\<not> (\<forall>e\<in>set (GetAdjacentEdgeRange dead_end (GetTarget dead_end 0)).
             GetTarget dead_end e \<noteq> 0 \<and> \<not> \<bar>angle (scanned_road dead_end 0 0 e)\<bar> < epsilon)"
    using e by simp
  note u = synthetic_uturn_appended [OF s(2), of 0 0, THEN conjunct2, THEN conjunct1, THEN mp, OF n]
  from u [THEN conjunct1] have d1: "length (GetConnectedRoads dead_end 0 0) = 1"
    by (simp add: e)
  from u [THEN conjunct2] have d2: "mset (map eid (GetConnectedRoads dead_end 0 0)) = {#11#}"
    by (simp add: e)
  from app' ids d1 d2 e a show ?thesis by simp
qed

subsection \<open>Only-turn restrictions\<close>

lemma only_restriction_dangling:
  assumes "\<forall>e\<in>set (GetAdjacentEdgeRange g t). GetTarget g e \<noteq> CheckForEmanatingIsOnlyTurn g f t"
  shows "only_restriction_to_node g f t = SPECIAL_NODEID g"
  using assms by (auto simp: only_restriction_to_node_def Let_def list_ex_iff)

lemma only_restriction_absent:
  "only_restriction_to_node (g\<lparr>CheckForEmanatingIsOnlyTurn := \<lambda>a b. SPECIAL_NODEID g\<rparr>) f t =
     SPECIAL_NODEID g"
  by (simp add: only_restriction_to_node_def)

lemma self_u_turn_restriction_update:
  "self_u_turn (g\<lparr>CheckForEmanatingIsOnlyTurn := c\<rparr>) f xs = self_u_turn g f xs"
  by (induction xs) simp_all

lemma turn_is_valid_dangling:
  assumes "\<forall>e\<in>set (GetAdjacentEdgeRange g (GetTarget g v)).
             GetTarget g e \<noteq> CheckForEmanatingIsOnlyTurn g f (GetTarget g v)"
  shows "turn_is_valid g f v e =
           (\<not> reversed (GetEdgeData g e) \<and>
            (GetTarget g v \<notin> barrier_nodes g \<or> f = GetTarget g e) \<and>
            \<not> CheckIfTurnIsRestricted g f (GetTarget g v) (GetTarget g e))"
  by (simp add: turn_is_valid_def Let_def only_restriction_dangling [OF assms])

lemma turn_is_valid_absent:
  "turn_is_valid (g\<lparr>CheckForEmanatingIsOnlyTurn := \<lambda>a b. SPECIAL_NODEID g\<rparr>) f v e =
           (\<not> reversed (GetEdgeData g e) \<and>
            (GetTarget g v \<notin> barrier_nodes g \<or> f = GetTarget g e) \<and>
            \<not> CheckIfTurnIsRestricted g f (GetTarget g v) (GetTarget g e))"
  by (simp add: turn_is_valid_def Let_def only_restriction_absent)

lemma scan_edge_dangling:
  assumes "\<forall>e\<in>set (GetAdjacentEdgeRange g (GetTarget g v)).
             GetTarget g e \<noteq> CheckForEmanatingIsOnlyTurn g f (GetTarget g v)"
  shows "scan_edge (g\<lparr>CheckForEmanatingIsOnlyTurn := \<lambda>a b. SPECIAL_NODEID g\<rparr>) f v = scan_edge g f v"
proof -
  let ?g = "g\<lparr>CheckForEmanatingIsOnlyTurn := \<lambda>a b. SPECIAL_NODEID g\<rparr>"
  have v: "turn_is_valid ?g f v e = turn_is_valid g f v e" for e
    by (simp only: turn_is_valid_dangling [OF assms] turn_is_valid_absent)
  have r: "scanned_road ?g f v e = scanned_road g f v e" for e
    by (simp add: scanned_road_def Let_def v connected_road_def
          number_of_emmiting_bidirectional_edges_def)
  show ?thesis
  proof (intro ext)
    fix e st
    have t: "GetTarget ?g e = GetTarget g e" by simp
    show "scan_edge ?g f v e st = scan_edge g f v e st"
      by (simp only: scan_edge_def Let_def v r t)
  qed
qed

text \<open>
  Claim C8: when the node named by the only-turn restriction for
  (\<open>from_node\<close>, \<open>turn_node\<close>) is the target of no edge adjacent to \<open>turn_node\<close>, the
  restriction has no effect: the result is the one obtained with no only-turn
  restriction at all, and a turn passes the general test exactly when the edge is not
  reversed, the barrier rule allows it and the restriction map does not forbid it.
\<close>

theorem dangling_only_restriction_ignored:
  assumes "\<forall>e\<in>set (GetAdjacentEdgeRange g (GetTarget g via_eid)).
             GetTarget g e \<noteq> CheckForEmanatingIsOnlyTurn g from_node (GetTarget g via_eid)"
  shows "GetConnectedRoads g from_node via_eid =
           GetConnectedRoads (g\<lparr>CheckForEmanatingIsOnlyTurn := \<lambda>a b. SPECIAL_NODEID g\<rparr>)
             from_node via_eid \<and>
         (\<forall>onto_edge. turn_is_valid g from_node via_eid onto_edge =
            (\<not> reversed (GetEdgeData g onto_edge) \<and>
             (GetTarget g via_eid \<notin> barrier_nodes g \<or> from_node = GetTarget g onto_edge) \<and>
             \<not> CheckIfTurnIsRestricted g from_node (GetTarget g via_eid) (GetTarget g onto_edge)))"
proof -
  let ?g = "g\<lparr>CheckForEmanatingIsOnlyTurn := \<lambda>a b. SPECIAL_NODEID g\<rparr>"
  have s: "scan_edges ?g from_node via_eid = scan_edges g from_node via_eid"
    by (simp add: scan_edges_def scan_edge_dangling [OF assms])
  have y: "synthetic_uturn ?g from_node via_eid = synthetic_uturn g from_node via_eid"
    by (simp add: synthetic_uturn_def connected_road_def)
  have u: "unsorted_roads ?g from_node via_eid = unsorted_roads g from_node via_eid"
    by (simp add: unsorted_roads_def Let_def s y)
  have "GetConnectedRoads ?g from_node via_eid = GetConnectedRoads g from_node via_eid"
    by (simp add: GetConnectedRoads_def Let_def s u self_u_turn_restriction_update)
  then show ?thesis
    by (simp add: turn_is_valid_dangling [OF assms])
qed

theorem dangling_only_restriction_ignored_witness:
  "CheckForEmanatingIsOnlyTurn (three_carriageways\<lparr>CheckForEmanatingIsOnlyTurn := \<lambda>a b. 9\<rparr>) 0 10 = 9 \<and>
   9 \<notin> GetTarget three_carriageways ` set (GetAdjacentEdgeRange three_carriageways 10) \<and>
   GetConnectedRoads (three_carriageways\<lparr>CheckForEmanatingIsOnlyTurn := \<lambda>a b. 9\<rparr>) 0 0 =
     [connected_road three_carriageways 11 0 0 False,
      connected_road three_carriageways 2 100 100 True,
      connected_road three_carriageways 3 120 120 False,
      connected_road three_carriageways 4 140 140 False]"
proof -
  let ?g = "three_carriageways\<lparr>CheckForEmanatingIsOnlyTurn := \<lambda>a b. 9\<rparr>"
  have a: "\<forall>e\<in>set (GetAdjacentEdgeRange ?g (GetTarget ?g 0)).
             GetTarget ?g e \<noteq> CheckForEmanatingIsOnlyTurn ?g 0 (GetTarget ?g 0)"
    by (simp add: three_carriageways_def example_defs)
  have b: "?g\<lparr>CheckForEmanatingIsOnlyTurn := \<lambda>a b. SPECIAL_NODEID ?g\<rparr> = three_carriageways"
    by (simp add: three_carriageways_def example_defs)
  have c: "9 \<notin> GetTarget three_carriageways ` set (GetAdjacentEdgeRange three_carriageways 10)"
    by (simp add: three_carriageways_def example_defs)
  show ?thesis
    using dangling_only_restriction_ignored [OF a] b c three_carriageways_raw
    by simp
qed

subsection \<open>When the artificial u-turn is appended\<close>

lemma angle_scanned_road_nonneg:
  assumes "\<forall>a b c. 0 \<le> computeAngle g a b c"
  shows "0 \<le> angle (scanned_road g f v e)"
  using assms by (simp add: scanned_road_def connected_road_def Let_def)

lemma angle_scanned_road_uturn: "GetTarget g e = f \<Longrightarrow> angle (scanned_road g f v e) = 0"
  by (simp add: scanned_road_def connected_road_def Let_def)

text \<open>
  Claim C10: provided \<open>computeAngle\<close> is never negative, the artificial u-turn is
  appended exactly when no adjacent edge leads back to \<open>from_node\<close> and no other adjacent
  edge has an angle below machine epsilon: in that case the result of
  \<^verbatim>\<open>GetConnectedRoads\<close> is the sorted list of the scanned entries and the artificial
  entry; otherwise its edge ids are those of the sorted scanned entries alone. Where
  \<^verbatim>\<open>std::sort\<close> permutes its input, the result has one entry more than there are adjacent
  edges in the first case and as many in the second. Consequently, when no adjacent edge
  leads back but some adjacent edge has such an angle, nothing is appended: every entry of
  the result, slot 0 included, carries an adjacent edge that does not lead back to
  \<open>from_node\<close>.
\<close>

theorem synthetic_uturn_iff:
  assumes "\<forall>a b c. 0 \<le> computeAngle g a b c"
  shows "(\<not> ((\<exists>e\<in>set (GetAdjacentEdgeRange g (GetTarget g via_eid)). GetTarget g e = from_node) \<or>
             (\<exists>e\<in>set (GetAdjacentEdgeRange g (GetTarget g via_eid)).
                 GetTarget g e \<noteq> from_node \<and> angle (scanned_road g from_node via_eid e) < epsilon)) \<longrightarrow>
            GetConnectedRoads g from_node via_eid =
              std_sort g (map (scanned_road g from_node via_eid)
                            (GetAdjacentEdgeRange g (GetTarget g via_eid)) @
                          [synthetic_uturn g from_node via_eid])) \<and>
         ((\<exists>e\<in>set (GetAdjacentEdgeRange g (GetTarget g via_eid)). GetTarget g e = from_node) \<or>
          (\<exists>e\<in>set (GetAdjacentEdgeRange g (GetTarget g via_eid)).
              GetTarget g e \<noteq> from_node \<and> angle (scanned_road g from_node via_eid e) < epsilon) \<longrightarrow>
            map eid (GetConnectedRoads g from_node via_eid) =
              map eid (std_sort g (map (scanned_road g from_node via_eid)
                                     (GetAdjacentEdgeRange g (GetTarget g via_eid))))) \<and>
         unsorted_roads g from_node via_eid =
           map (scanned_road g from_node via_eid) (GetAdjacentEdgeRange g (GetTarget g via_eid)) @
           (if (\<exists>e\<in>set (GetAdjacentEdgeRange g (GetTarget g via_eid)). GetTarget g e = from_node) \<or>
               (\<exists>e\<in>set (GetAdjacentEdgeRange g (GetTarget g via_eid)).
                   GetTarget g e \<noteq> from_node \<and> angle (scanned_road g from_node via_eid e) < epsilon)
            then [] else [synthetic_uturn g from_node via_eid]) \<and>
         ((\<forall>xs. mset (std_sort g xs) = mset xs) \<longrightarrow>
          length (GetConnectedRoads g from_node via_eid) =
            length (GetAdjacentEdgeRange g (GetTarget g via_eid)) +
            (if (\<exists>e\<in>set (GetAdjacentEdgeRange g (GetTarget g via_eid)). GetTarget g e = from_node) \<or>
                (\<exists>e\<in>set (GetAdjacentEdgeRange g (GetTarget g via_eid)).
                    GetTarget g e \<noteq> from_node \<and> angle (scanned_road g from_node via_eid e) < epsilon)
             then 0 else 1) \<and>
          mset (map eid (GetConnectedRoads g from_node via_eid)) =
            mset (GetAdjacentEdgeRange g (GetTarget g via_eid)) +
            (if (\<exists>e\<in>set (GetAdjacentEdgeRange g (GetTarget g via_eid)). GetTarget g e = from_node) \<or>
                (\<exists>e\<in>set (GetAdjacentEdgeRange g (GetTarget g via_eid)).
                    GetTarget g e \<noteq> from_node \<and> angle (scanned_road g from_node via_eid e) < epsilon)
             then {#} else {#via_eid#})) \<and>
         ((\<forall>xs. mset (std_sort g xs) = mset xs) \<and>
          (\<forall>e\<in>set (GetAdjacentEdgeRange g (GetTarget g via_eid)). GetTarget g e \<noteq> from_node) \<and>
          (\<exists>e\<in>set (GetAdjacentEdgeRange g (GetTarget g via_eid)).
              angle (scanned_road g from_node via_eid e) < epsilon) \<longrightarrow>
          GetConnectedRoads g from_node via_eid \<noteq> [] \<and>
          (\<forall>r\<in>set (GetConnectedRoads g from_node via_eid).
              eid r \<in> set (GetAdjacentEdgeRange g (GetTarget g via_eid)) \<and>
              GetTarget g (eid r) \<noteq> from_node))"
proof -
  let ?es = "GetAdjacentEdgeRange g (GetTarget g via_eid)"
  let ?a = "\<lambda>e. angle (scanned_road g from_node via_eid e)"
  let ?c = "(\<exists>e\<in>set ?es. GetTarget g e = from_node) \<or>
            (\<exists>e\<in>set ?es. GetTarget g e \<noteq> from_node \<and> ?a e < epsilon)"
  have abs: "\<bar>?a e\<bar> = ?a e" for e
    using angle_scanned_road_nonneg [OF assms, of from_node via_eid e] by simp
  have h: "has_uturn_edge (scan_edges g from_node via_eid) = ?c"
    unfolding scan_edges_has_uturn_edge abs by auto
  have u: "unsorted_roads g from_node via_eid =
             map (scanned_road g from_node via_eid) ?es @
             (if ?c then [] else [synthetic_uturn g from_node via_eid])"
    unfolding unsorted_roads_eq h by simp
  have appended: "GetConnectedRoads g from_node via_eid =
      std_sort g (map (scanned_road g from_node via_eid) ?es @ [synthetic_uturn g from_node via_eid])"
    if "\<not> ?c"
  proof -
    from that have "\<not> has_uturn_edge (scan_edges g from_node via_eid)"
      unfolding h .
    then have "GetConnectedRoads g from_node via_eid = std_sort g (unsorted_roads g from_node via_eid)"
      by (rule no_uturn_edge_no_fixup)
    moreover have "(if ?c then [] else [synthetic_uturn g from_node via_eid]) =
        [synthetic_uturn g from_node via_eid]"
      using that by (rule if_not_P)
    ultimately show ?thesis
      by (simp only: u)
  qed
  have not_appended: "map eid (GetConnectedRoads g from_node via_eid) =
      map eid (std_sort g (map (scanned_road g from_node via_eid) ?es))"
    if "?c"
  proof -
    have "(if ?c then [] else [synthetic_uturn g from_node via_eid]) = []"
      using that by (rule if_P)
    then show ?thesis
      using map_eid_GetConnectedRoads [of g from_node via_eid]
      by (simp only: u append_Nil2)
  qed
  have counted: "length (GetConnectedRoads g from_node via_eid) =
        length ?es + (if ?c then 0 else 1) \<and>
      mset (map eid (GetConnectedRoads g from_node via_eid)) =
        mset ?es + (if ?c then {#} else {#via_eid#})"
    if s: "\<forall>xs. mset (std_sort g xs) = mset xs"
  proof -
    have m: "mset (map eid (GetConnectedRoads g from_node via_eid)) =
        mset ?es + (if ?c then {#} else {#via_eid#})"
      using mset_eid_GetConnectedRoads [OF s, of from_node via_eid]
      unfolding h by simp
    have "length (GetConnectedRoads g from_node via_eid) =
        size (mset (map eid (GetConnectedRoads g from_node via_eid)))"
      by simp
    also have "\<dots> = length ?es + (if ?c then 0 else 1)"
      unfolding m by auto
    finally show ?thesis
      using m by simp
  qed
  have second: "GetConnectedRoads g from_node via_eid \<noteq> [] \<and>
          (\<forall>r\<in>set (GetConnectedRoads g from_node via_eid).
              eid r \<in> set ?es \<and> GetTarget g (eid r) \<noteq> from_node)"
    if s: "\<forall>xs. mset (std_sort g xs) = mset xs"
      and n: "\<forall>e\<in>set ?es. GetTarget g e \<noteq> from_node"
      and z: "\<exists>e\<in>set ?es. ?a e < epsilon"
  proof -
    from n z have hu: "has_uturn_edge (scan_edges g from_node via_eid)"
      unfolding h by auto
    have m: "mset (map eid (GetConnectedRoads g from_node via_eid)) = mset ?es"
      using mset_eid_GetConnectedRoads [OF s, of from_node via_eid] hu by simp
    then have e: "set (map eid (GetConnectedRoads g from_node via_eid)) = set ?es"
      by (metis set_mset_mset)
    from z have "?es \<noteq> []" by auto
    with m have "GetConnectedRoads g from_node via_eid \<noteq> []" by auto
    with e n show ?thesis by auto
  qed
  show ?thesis
    using appended not_appended u counted second by blast
qed

theorem synthetic_uturn_iff_witness:
  "GetAdjacentEdgeRange (one_way_street 180) (GetTarget (one_way_street 180) 0) = [2] \<and>
   GetTarget (one_way_street 180) 2 = 2 \<and>
   angle (scanned_road (one_way_street 180) 0 0 2) = 180 \<and>
   GetConnectedRoads (one_way_street 180) 0 0 =
     [connected_road (one_way_street 180) 0 0 90 False,
      connected_road (one_way_street 180) 2 180 270 True] \<and>
   GetAdjacentEdgeRange (one_way_street 0) (GetTarget (one_way_street 0) 0) = [2] \<and>
   GetTarget (one_way_street 0) 2 = 2 \<and>
   angle (scanned_road (one_way_street 0) 0 0 2) = 0 \<and>
   unsorted_roads (one_way_street 0) 0 0 = [scanned_road (one_way_street 0) 0 0 2] \<and>
   length (GetConnectedRoads (one_way_street 0) 0 0) = 1 \<and>
   map eid (GetConnectedRoads (one_way_street 0) 0 0) = [2] \<and>
   GetTarget (one_way_street 0) (eid (GetConnectedRoads (one_way_street 0) 0 0 ! 0)) \<noteq> 0"
proof -
  let ?g = "one_way_street 0"
  let ?h = "one_way_street 180"
  have c: "\<forall>a b c. 0 \<le> computeAngle ?g a b c" "\<forall>a b c. 0 \<le> computeAngle ?h a b c"
    by (simp_all add: one_way_street_def example_defs)
  have s: "\<forall>xs. mset (std_sort ?g xs) = mset xs"
    by (simp add: one_way_street_def example_generator_sort)
  have e: "GetAdjacentEdgeRange ?g (GetTarget ?g 0) = [2]" "GetTarget ?g 2 = 2"
    "GetAdjacentEdgeRange ?h (GetTarget ?h 0) = [2]" "GetTarget ?h 2 = 2"
    by (simp_all add: one_way_street_def example_defs)
  have a: "angle (scanned_road ?g 0 0 2) = 0" "angle (scanned_road ?h 0 0 2) = 180"
    by (simp_all add: one_way_street_def example_defs scanned_road_def connected_road_def)
  have r: "scanned_road ?h 0 0 2 = connected_road ?h 2 180 270 True"
    "synthetic_uturn ?h 0 0 = connected_road ?h 0 0 90 False"
    by (simp_all add: one_way_street_def example_defs raw_defs)
  have so: "std_sort ?h = sort_key angle"
    by (simp add: one_way_street_def example_generator_sort)
  have p: "0 < epsilon" "\<not> 180 < epsilon" by (simp_all add: epsilon_def)
  from synthetic_uturn_iff [OF c(2), of 0 0] e a p
  have app: "GetConnectedRoads ?h 0 0 = std_sort ?h [scanned_road ?h 0 0 2, synthetic_uturn ?h 0 0]"
    by simp
  then have app': "GetConnectedRoads ?h 0 0 =
      [connected_road ?h 0 0 90 False, connected_road ?h 2 180 270 True]"
    unfolding so r by (simp add: connected_road_def)
  from synthetic_uturn_iff [OF c(1), of 0 0] s e a p
  have u: "unsorted_roads ?g 0 0 = [scanned_road ?g 0 0 2]"
    and l: "length (GetConnectedRoads ?g 0 0) = 1"
    and n: "GetConnectedRoads ?g 0 0 \<noteq> []"
    and q: "\<forall>r\<in>set (GetConnectedRoads ?g 0 0). eid r = 2"
    by simp_all
  from n q have z: "eid (GetConnectedRoads ?g 0 0 ! 0) = 2"
    by (metis length_greater_0_conv nth_mem)
  from l z have m: "map eid (GetConnectedRoads ?g 0 0) = [2]"
    by (cases "GetConnectedRoads ?g 0 0") simp_all
  from u l m z app' e a show ?thesis by simp
qed

section \<open>Evaluation on the concrete networks\<close>

lemma network_fields:
  assumes "g = example_generator tgt adj dat ang bear bs"
  shows "GetTarget g = tgt"
  "GetAdjacentEdgeRange g = adj"
  "GetEdgeData g = dat"
  "GetOutDegree g = (\<lambda>n. length (adj n))"
  "FindEdge g =
     (\<lambda>a b. case find (\<lambda>e. tgt e = b) (adj a) of Some e \<Rightarrow> e | None \<Rightarrow> 1000)"
  "CheckForEmanatingIsOnlyTurn g = (\<lambda>a b. 1000)"
  "CheckIfTurnIsRestricted g = (\<lambda>a b c. False)"
  "barrier_nodes g = bs"
  "node_info_list g = (\<lambda>n. \<lparr>lon = int n, lat = 0\<rparr>)"
  "GetCoordinateAlongRoad g =
     (\<lambda>a e inv b lanes. \<lparr>lon = int e, lat = 1\<rparr>)"
  "getLaneCountAtIntersection g = (\<lambda>n. 1)"
  "calc_bearing g = (\<lambda>a c. bear (nat (lon c)))"
  "computeAngle g =
     (\<lambda>a b c. ang (nat (lon a)) (nat (lon c)))"
  "haversineDistance g = (\<lambda>a b. 20)"
  "areParallel g = (\<lambda>l r d. True)"
  "getCoordinatesAlongWay g =
     (\<lambda>n e len. replicate 8 \<lparr>lon = int e, lat = 1\<rparr>)"
  "SampleCoordinates g = (\<lambda>cs len stride. cs)"
  "requiresNameAnnounced g = (\<lambda>a b. a \<noteq> b)"
  "angularDeviation g =
     (\<lambda>a b. min (360 - \<bar>a - b\<bar>) \<bar>a - b\<bar>)"
  "angleBetween g =
     (\<lambda>a b. if \<bar>a - b\<bar> \<le> 180 then (a + b) / 2
            else if (a + b) / 2 < 180 then (a + b) / 2 + 180 else (a + b) / 2 - 180)"
  "std_sort g = sort_key angle"
  "SPECIAL_NODEID g = 1000"
  "SPECIAL_EDGEID g = 1000"
  "EMPTY_NAMEID g = 0"
  "INVALID_LANE_DATAID g = 1000"
  "INVERT g = True"
  "MAXIMAL_ALLOWED_NO_TURN_DEVIATION g = 3"
  by (simp_all add: assms example_generator_def)

lemma network_contracts:
  assumes "g = example_generator tgt adj dat ang bear bs"
  shows "\<forall>a b. 0 \<le> a \<and> a \<le> 360 \<and> 0 \<le> b \<and> b \<le> 360 \<longrightarrow>
           0 \<le> angleBetween g a b \<and> angleBetween g a b \<le> 360"
    and "\<forall>a b. 0 \<le> a \<and> a \<le> 360 \<and> 0 \<le> b \<and> b \<le> 360 \<longrightarrow>
           0 \<le> angularDeviation g a b \<and> angularDeviation g a b \<le> 180"
    and "\<forall>xs. mset (std_sort g xs) = mset xs"
    and "\<forall>xs. sorted (map angle (std_sort g xs))"
    and "\<forall>xs. std_sort g (std_sort g xs) = std_sort g xs"
    and "0 \<le> MAXIMAL_ALLOWED_NO_TURN_DEVIATION g"
proof -
  show "\<forall>a b. 0 \<le> a \<and> a \<le> 360 \<and> 0 \<le> b \<and> b \<le> 360 \<longrightarrow>
           0 \<le> angleBetween g a b \<and> angleBetween g a b \<le> 360"
    by (simp add: network_fields [OF assms])
  show "\<forall>a b. 0 \<le> a \<and> a \<le> 360 \<and> 0 \<le> b \<and> b \<le> 360 \<longrightarrow>
           0 \<le> angularDeviation g a b \<and> angularDeviation g a b \<le> 180"
    by (auto simp: network_fields [OF assms])
qed (simp_all add: network_fields [OF assms] sort_key_id_if_sorted)

lemmas canmerge_defs = CanMerge_def canMergeRoad_def haveCompatibleRoadData_def
  haveSameDirection_def getRight_def merge_def connected_road_def Let_def

lemmas three_carriageways_fields = network_fields [OF three_carriageways_def] example_data_def

lemmas joining_roads_fields = network_fields [OF joining_roads_def] example_data_def

lemmas adjust_defs = adjust_road_def skips_road_def adjustAngle_def get_offset_def
  get_corrected_offset_def

lemma three_carriageways_merged:
  "MergeSegregatedRoads three_carriageways 10 (GetConnectedRoads three_carriageways 0 0) =
     [connected_road three_carriageways 11 0 0 False,
      connected_road three_carriageways 2 110 110 True,
      connected_road three_carriageways 4 140 140 False]"
  apply (simp add: three_carriageways_raw MergeSegregatedRoads_def)
  apply (simp add: three_carriageways_fields canmerge_defs merge_first_def)
  apply (subst sweep.simps, simp add: three_carriageways_fields canmerge_defs)+
  done

lemma three_carriageways_merged_twice:
  "MergeSegregatedRoads three_carriageways 10
     [connected_road three_carriageways 11 0 0 False,
      connected_road three_carriageways 2 110 110 True,
      connected_road three_carriageways 4 140 140 False] =
     [connected_road three_carriageways 11 0 0 False,
      connected_road three_carriageways 2 125 125 True]"
  apply (simp add: MergeSegregatedRoads_def)
  apply (simp add: three_carriageways_fields canmerge_defs merge_first_def)
  apply (subst sweep.simps, simp add: three_carriageways_fields canmerge_defs)+
  done

lemma three_carriageways_sort:
  "\<forall>xs. mset (std_sort three_carriageways xs) = mset xs"
  "\<forall>xs. std_sort three_carriageways (std_sort three_carriageways xs) = std_sort three_carriageways xs"
  by (simp_all add: three_carriageways_fields sort_key_id_if_sorted)

lemma joining_roads_raw:
  "GetConnectedRoads joining_roads 0 0 =
     [connected_road joining_roads 11 0 170 False,
      connected_road joining_roads 2 100 340 True,
      connected_road joining_roads 3 200 80 True]"
  by (simp add: joining_roads_def example_defs raw_defs)

lemma joining_roads_next:
  "GetConnectedRoads joining_roads 10 2 =
     [connected_road joining_roads 4 0 340 False,
      connected_road joining_roads 5 40 20 True,
      connected_road joining_roads 6 200 180 True]"
  "GetConnectedRoads joining_roads 10 3 = [connected_road joining_roads 7 0 80 True]"
  by (simp_all add: joining_roads_def example_defs raw_defs)

lemma joining_roads_merged:
  "MergeSegregatedRoads joining_roads 10 (GetConnectedRoads joining_roads 0 0) =
     GetConnectedRoads joining_roads 0 0"
  apply (simp add: joining_roads_raw MergeSegregatedRoads_def)
  apply (simp add: joining_roads_fields canmerge_defs merge_first_def)
  apply (subst sweep.simps, simp add: joining_roads_fields canmerge_defs)+
  done


lemma joining_roads_adjusted:
  "AdjustForJoiningRoads joining_roads 10 (GetConnectedRoads joining_roads 0 0) =
     [connected_road joining_roads 11 0 170 False,
      connected_road joining_roads 2 120 360 True,
      connected_road joining_roads 3 200 80 True]"
  apply (simp add: joining_roads_raw AdjustForJoiningRoads_def)
  apply (subst adjust_loop.simps,
         simp add: adjust_defs joining_roads_next joining_roads_fields canmerge_defs)
  apply (subst adjust_loop.simps,
         simp add: adjust_defs joining_roads_next joining_roads_fields canmerge_defs)
  apply (subst adjust_loop.simps, simp)
  done

lemma joining_roads_geometry:
  "\<forall>a b c. 0 \<le> computeAngle joining_roads a b c \<and> computeAngle joining_roads a b c \<le> 360"
  "\<forall>a b. 0 \<le> calc_bearing joining_roads a b \<and> calc_bearing joining_roads a b \<le> 360"
  by (simp_all add: joining_roads_fields)

lemma joining_roads_generate:
  "generate joining_roads 0 0 =
     [connected_road joining_roads 11 0 170 False,
      connected_road joining_roads 2 120 360 True,
      connected_road joining_roads 3 200 80 True]"
proof -
  have "GetTarget joining_roads 0 = 10" by (simp add: joining_roads_fields)
  then show ?thesis
    by (simp add: generate_def Let_def joining_roads_merged joining_roads_adjusted)
qed

section \<open>The pairwise merge\<close>

subsection \<open>The midpoint of the shorter arc\<close>


lemma shorter_arc_midpoint_unique:
  assumes "0 \<le> a" "a < 360" "0 \<le> b" "b < 360" "cyclic_distance a b < 180"
    "shorter_arc_midpoint m a b" "shorter_arc_midpoint n a b"
  shows "m = n"
  using assms unfolding shorter_arc_midpoint_def cyclic_distance_def
  by argo


subsection \<open>A merge of two entries that may not be entered\<close>









section \<open>Facts about \<^verbatim>\<open>AdjustForJoiningRoads\<close>\<close>

lemma length_adjust_road [simp]: "length (adjust_road g n i xs) = length xs"
  by (simp add: adjust_road_def Let_def)

lemma adjust_road_other: "j \<noteq> i \<Longrightarrow> adjust_road g n i xs ! j = xs ! j"
  by (simp add: adjust_road_def Let_def)

lemma adjust_road_same_fields:
  "i < length xs \<Longrightarrow>
     (adjust_road g n i xs ! i)\<lparr>angle := angle (xs ! i), bearing := bearing (xs ! i)\<rparr> = xs ! i"
  by (simp add: adjust_road_def Let_def)

lemma adjust_road_skip: "skips_road g n (xs ! i) \<Longrightarrow> adjust_road g n i xs = xs"
  by (simp add: adjust_road_def Let_def)

lemma length_adjust_loop [simp]: "length (adjust_loop g n k xs) = length xs"
  by (induction g n k xs rule: adjust_loop.induct) (subst adjust_loop.simps, simp)

lemma adjust_loop_before: "j < k \<Longrightarrow> adjust_loop g n k xs ! j = xs ! j"
proof (induction g n k xs rule: adjust_loop.induct)
  case (1 g n k xs)
  show ?case
  proof (cases "k < length xs")
    case True
    with 1 have "adjust_loop g n (Suc k) (adjust_road g n k xs) ! j = adjust_road g n k xs ! j"
      by simp
    with True 1(2) show ?thesis
      by (subst adjust_loop.simps) (simp add: adjust_road_other)
  next
    case False
    then show ?thesis by (subst adjust_loop.simps) simp
  qed
qed

lemma adjust_loop_same_fields:
  "j < length xs \<Longrightarrow>
     (adjust_loop g n k xs ! j)\<lparr>angle := angle (xs ! j), bearing := bearing (xs ! j)\<rparr> = xs ! j"
proof (induction g n k xs rule: adjust_loop.induct)
  case (1 g n k xs)
  show ?case
  proof (cases "k < length xs")
    case True
    let ?ys = "adjust_road g n k xs"
    let ?r = "adjust_loop g n (Suc k) ?ys ! j"
    from 1 True have ih: "?r\<lparr>angle := angle (?ys ! j), bearing := bearing (?ys ! j)\<rparr> = ?ys ! j"
      by simp
    have "?r\<lparr>angle := angle (xs ! j), bearing := bearing (xs ! j)\<rparr> = xs ! j"
    proof (cases "j = k")
      case True
      have "?r\<lparr>angle := angle (xs ! j), bearing := bearing (xs ! j)\<rparr> =
            (?r\<lparr>angle := angle (?ys ! j), bearing := bearing (?ys ! j)\<rparr>)
              \<lparr>angle := angle (xs ! j), bearing := bearing (xs ! j)\<rparr>"
        by simp
      also have "\<dots> = (?ys ! j)\<lparr>angle := angle (xs ! j), bearing := bearing (xs ! j)\<rparr>"
        by (simp only: ih)
      also have "\<dots> = xs ! j"
        using adjust_road_same_fields [of k xs g n] True 1(2) by simp
      finally show ?thesis .
    next
      case False
      with ih show ?thesis by (simp add: adjust_road_other)
    qed
    with True show ?thesis by (subst adjust_loop.simps) simp
  next
    case False
    then show ?thesis by (subst adjust_loop.simps) simp
  qed
qed

lemma adjust_loop_skip:
  "j < length xs \<Longrightarrow> skips_road g n (xs ! j) \<Longrightarrow> adjust_loop g n k xs ! j = xs ! j"
proof (induction g n k xs rule: adjust_loop.induct)
  case (1 g n k xs)
  show ?case
  proof (cases "k < length xs")
    case True
    let ?ys = "adjust_road g n k xs"
    have same: "?ys ! j = xs ! j"
    proof (cases "j = k")
      case True
      with 1(3) show ?thesis by (simp add: adjust_road_skip)
    next
      case False
      then show ?thesis by (simp add: adjust_road_other)
    qed
    with 1 True have "adjust_loop g n (Suc k) ?ys ! j = ?ys ! j"
      by simp
    with True same show ?thesis by (subst adjust_loop.simps) simp
  next
    case False
    then show ?thesis by (subst adjust_loop.simps) simp
  qed
qed

text \<open>
  Claim C9: \<^verbatim>\<open>AdjustForJoiningRoads\<close> keeps the number of entries and the entry at slot
  0; at an index from 1 on it leaves the angle and the bearing as they are when the next
  intersection along the road has at most one road, when the downstream node is more
  than 30 m away, or when the downstream node has at most one adjacent edge; and at every
  index all fields other than the angle and the bearing are as before.
\<close>

theorem adjust_for_joining_roads_frame:
  "length (AdjustForJoiningRoads g node xs) = length xs \<and>
   (xs \<noteq> [] \<longrightarrow> AdjustForJoiningRoads g node xs ! 0 = xs ! 0) \<and>
   (\<forall>i. 1 \<le> i \<and> i < length xs \<and>
        (length (GetConnectedRoads g node (eid (xs ! i))) \<le> 1 \<or>
         haversineDistance g (node_info_list g node)
           (node_info_list g (GetTarget g (eid (xs ! i)))) > 30 \<or>
         length (GetAdjacentEdgeRange g (GetTarget g (eid (xs ! i)))) \<le> 1) \<longrightarrow>
        angle (AdjustForJoiningRoads g node xs ! i) = angle (xs ! i) \<and>
        bearing (AdjustForJoiningRoads g node xs ! i) = bearing (xs ! i)) \<and>
   (\<forall>i. i < length xs \<longrightarrow>
        (AdjustForJoiningRoads g node xs ! i)
          \<lparr>angle := angle (xs ! i), bearing := bearing (xs ! i)\<rparr> = xs ! i)"
proof (cases "length xs \<le> 1")
  case True
  then show ?thesis by (simp add: AdjustForJoiningRoads_def)
next
  case False
  then have a: "AdjustForJoiningRoads g node xs = adjust_loop g node 1 xs"
    by (simp add: AdjustForJoiningRoads_def)
  have "adjust_loop g node 1 xs ! i = xs ! i"
    if "i < length xs" "skips_road g node (xs ! i)" for i
    using that by (rule adjust_loop_skip)
  then show ?thesis
    unfolding a by (simp add: adjust_loop_before adjust_loop_same_fields skips_road_def)
qed

theorem adjust_for_joining_roads_frame_witness:
  "length (AdjustForJoiningRoads joining_roads 10 (GetConnectedRoads joining_roads 0 0)) = 3 \<and>
   AdjustForJoiningRoads joining_roads 10 (GetConnectedRoads joining_roads 0 0) ! 0 =
     connected_road joining_roads 11 0 170 False \<and>
   length (GetConnectedRoads joining_roads 10 3) = 1 \<and>
   angle (AdjustForJoiningRoads joining_roads 10 (GetConnectedRoads joining_roads 0 0) ! 2) = 200 \<and>
   bearing (AdjustForJoiningRoads joining_roads 10 (GetConnectedRoads joining_roads 0 0) ! 2) = 80 \<and>
   eid (AdjustForJoiningRoads joining_roads 10 (GetConnectedRoads joining_roads 0 0) ! 1) = 2 \<and>
   entry_allowed (AdjustForJoiningRoads joining_roads 10 (GetConnectedRoads joining_roads 0 0) ! 1)"
proof -
  let ?xs = "GetConnectedRoads joining_roads 0 0"
  let ?res = "AdjustForJoiningRoads joining_roads 10 ?xs"
  note f = adjust_for_joining_roads_frame [of joining_roads 10 ?xs]
  have len: "length ?xs = 3" by (simp add: joining_roads_raw)
  have skip: "length (GetConnectedRoads joining_roads 10 (eid (?xs ! 2))) = 1"
    by (simp add: joining_roads_raw joining_roads_next connected_road_def)
  from f len have l: "length ?res = 3" by simp
  from f len have z: "?res ! 0 = ?xs ! 0" by auto
  from f have "1 \<le> (2::nat) \<and> 2 < length ?xs \<and>
      (length (GetConnectedRoads joining_roads 10 (eid (?xs ! 2))) \<le> 1 \<or>
       30 < haversineDistance joining_roads (node_info_list joining_roads 10)
              (node_info_list joining_roads (GetTarget joining_roads (eid (?xs ! 2)))) \<or>
       length (GetAdjacentEdgeRange joining_roads (GetTarget joining_roads (eid (?xs ! 2)))) \<le> 1) \<longrightarrow>
      angle (?res ! 2) = angle (?xs ! 2) \<and> bearing (?res ! 2) = bearing (?xs ! 2)"
    by blast
  with len skip have a: "angle (?res ! 2) = angle (?xs ! 2) \<and> bearing (?res ! 2) = bearing (?xs ! 2)"
    by simp
  from f len have "(?res ! 1)\<lparr>angle := angle (?xs ! 1), bearing := bearing (?xs ! 1)\<rparr> = ?xs ! 1"
    by simp
  then have o: "eid (?res ! 1) = eid (?xs ! 1) \<and> entry_allowed (?res ! 1) = entry_allowed (?xs ! 1)"
    by (metis ConnectedRoad.select_convs(1,7) ConnectedRoad.surjective ConnectedRoad.update_convs(2,3))
  from l z a o skip show ?thesis
    by (simp add: joining_roads_raw joining_roads_next connected_road_def)
qed

section \<open>Facts about \<^verbatim>\<open>MergeSegregatedRoads\<close>\<close>

lemma length_sweep [simp]: "length (sweep g n k xs) = length xs"
  by (induction g n k xs rule: sweep.induct) (subst sweep.simps, simp add: Let_def)

lemma length_add_to_angles [simp]: "length (add_to_angles lo hi c xs) = length xs"
  by (simp add: add_to_angles_def)

lemma length_merge_first: "length (snd (merge_first g n xs)) \<le> length xs"
  by (auto simp: merge_first_def Let_def min_def)

text \<open>
  Claim C5, as stated, fails on the code. On the three carriageways the sweep folds
  edge 3 into edge 2; edge 4 is then skipped, because its right neighbour has just been
  consumed. In the result the entries at indices 2 and 1 (edges 4 and 2) satisfy
  \<^verbatim>\<open>CanMerge\<close>.
\<close>

theorem mergeable_after_merge_counterexample:
  "length (MergeSegregatedRoads three_carriageways 10 (GetConnectedRoads three_carriageways 0 0)) = 3 \<and>
   getRight (MergeSegregatedRoads three_carriageways 10 (GetConnectedRoads three_carriageways 0 0)) 2 = 1 \<and>
   CanMerge three_carriageways 10
     (MergeSegregatedRoads three_carriageways 10 (GetConnectedRoads three_carriageways 0 0)) 2
     (getRight (MergeSegregatedRoads three_carriageways 10 (GetConnectedRoads three_carriageways 0 0)) 2)"
  apply (simp add: three_carriageways_merged)
  apply (simp add: three_carriageways_fields canmerge_defs)
  done

text \<open>
  Claim C5, amended: provided \<^verbatim>\<open>std::sort\<close> permutes its input, the result of
  \<^verbatim>\<open>MergeSegregatedRoads\<close> has at most as many entries as its input. (Entries of the result
  may still satisfy \<^verbatim>\<open>CanMerge\<close>.)
\<close>

theorem merge_segregated_roads_size:
  assumes "\<forall>xs. mset (std_sort g xs) = mset xs"
  shows "length (MergeSegregatedRoads g intersection_node xs) \<le> length xs"
proof (cases "length xs \<le> 1")
  case True
  then show ?thesis by (simp add: MergeSegregatedRoads_def)
next
  case False
  let ?ys = "snd (merge_first g intersection_node xs)"
  let ?zs = "if fst (merge_first g intersection_node xs) \<and>
                list_ex (\<lambda>road. roundabout (GetEdgeData g (eid road))) xs
             then ?ys[0 := (?ys ! 0)\<lparr>entry_allowed := False\<rparr>] else ?ys"
  have "length (filter (\<lambda>road. eid road \<noteq> SPECIAL_EDGEID g) (sweep g intersection_node 2 ?zs))
          \<le> length (sweep g intersection_node 2 ?zs)"
    by (rule length_filter_le)
  also have "\<dots> = length ?ys" by simp
  also have "\<dots> \<le> length xs" by (rule length_merge_first)
  finally show ?thesis
    using False by (simp add: MergeSegregatedRoads_def Let_def length_std_sort [OF assms])
qed

theorem merge_segregated_roads_size_witness:
  "length (MergeSegregatedRoads three_carriageways 10 (GetConnectedRoads three_carriageways 0 0))
     \<le> length (GetConnectedRoads three_carriageways 0 0)"
  using merge_segregated_roads_size [OF three_carriageways_sort(1)] by simp

text \<open>
  Claim C2, as stated, fails on the code. On the three carriageways the first application
  folds edge 3 into edge 2 and leaves edge 4; the second application folds edge 4 into
  edge 2 as well.
\<close>

theorem merge_twice_counterexample:
  "MergeSegregatedRoads three_carriageways 10 (GetConnectedRoads three_carriageways 0 0) =
     [connected_road three_carriageways 11 0 0 False,
      connected_road three_carriageways 2 110 110 True,
      connected_road three_carriageways 4 140 140 False] \<and>
   MergeSegregatedRoads three_carriageways 10
     (MergeSegregatedRoads three_carriageways 10 (GetConnectedRoads three_carriageways 0 0)) =
     [connected_road three_carriageways 11 0 0 False,
      connected_road three_carriageways 2 125 125 True] \<and>
   MergeSegregatedRoads three_carriageways 10
     (MergeSegregatedRoads three_carriageways 10 (GetConnectedRoads three_carriageways 0 0)) \<noteq>
   MergeSegregatedRoads three_carriageways 10 (GetConnectedRoads three_carriageways 0 0)"
  by (simp add: three_carriageways_merged three_carriageways_merged_twice)

lemma sweep_no_merge:
  assumes "\<not> list_ex (\<lambda>index. CanMerge g n xs index (getRight xs index)) [2..<length xs]"
  shows "2 \<le> k \<Longrightarrow> sweep g n k xs = xs"
proof (induction "length xs - k" arbitrary: k)
  case 0
  then show ?case by (subst sweep.simps) simp
next
  case (Suc d)
  then have k: "k < length xs" by simp
  with Suc.prems assms have "\<not> CanMerge g n xs k (getRight xs k)"
    by (auto simp: list_ex_iff)
  moreover from Suc have "sweep g n (Suc k) xs = xs" by simp
  ultimately show ?case
    using k by (subst sweep.simps) (simp add: Let_def)
qed

text \<open>
  Claim C2, amended: a second application of \<^verbatim>\<open>MergeSegregatedRoads\<close> returns the output
  of the first unchanged whenever no pair that the step tests satisfies \<^verbatim>\<open>CanMerge\<close> in
  that output; here \<^verbatim>\<open>std::sort\<close> is taken to permute its input and to leave its own
  output as it is.
\<close>

theorem merge_segregated_roads_fixpoint:
  assumes perm: "\<forall>xs. mset (std_sort g xs) = mset xs"
    and idem: "\<forall>xs. std_sort g (std_sort g xs) = std_sort g xs"
    and none: "\<not> mergeable_pair g intersection_node (MergeSegregatedRoads g intersection_node xs)"
  shows "MergeSegregatedRoads g intersection_node (MergeSegregatedRoads g intersection_node xs) =
           MergeSegregatedRoads g intersection_node xs"
proof (cases "length xs \<le> 1")
  case True
  then show ?thesis by (simp add: MergeSegregatedRoads_def)
next
  case False
  let ?M = "MergeSegregatedRoads g intersection_node xs"
  obtain ws where M: "?M = std_sort g (filter (\<lambda>road. eid road \<noteq> SPECIAL_EDGEID g) ws)"
    using False by (simp add: MergeSegregatedRoads_def Let_def)
  have live: "filter (\<lambda>road. eid road \<noteq> SPECIAL_EDGEID g) ?M = ?M"
  proof -
    have "set ?M = set (filter (\<lambda>road. eid road \<noteq> SPECIAL_EDGEID g) ws)"
      unfolding M using perm by (metis set_mset_mset)
    then show ?thesis by (auto simp: filter_id_conv)
  qed
  have sorted: "std_sort g ?M = ?M"
    unfolding M using idem by simp
  from none have first: "merge_first g intersection_node ?M = (False, ?M)"
    by (simp add: mergeable_pair_def merge_first_def)
  from none have sw: "sweep g intersection_node 2 ?M = ?M"
    by (intro sweep_no_merge) (simp_all add: mergeable_pair_def)
  show ?thesis
  proof (cases "length ?M \<le> 1")
    case True
    then show ?thesis by (subst (1) MergeSegregatedRoads_def) simp
  next
    case False
    then show ?thesis
      by (subst (1) MergeSegregatedRoads_def) (simp add: Let_def first sw live sorted)
  qed
qed

theorem merge_segregated_roads_fixpoint_witness:
  "\<not> mergeable_pair three_carriageways 10
       (MergeSegregatedRoads three_carriageways 10
          (MergeSegregatedRoads three_carriageways 10 (GetConnectedRoads three_carriageways 0 0))) \<and>
   MergeSegregatedRoads three_carriageways 10
     (MergeSegregatedRoads three_carriageways 10
        (MergeSegregatedRoads three_carriageways 10 (GetConnectedRoads three_carriageways 0 0))) =
   MergeSegregatedRoads three_carriageways 10
     (MergeSegregatedRoads three_carriageways 10 (GetConnectedRoads three_carriageways 0 0))"
proof -
  let ?M = "MergeSegregatedRoads three_carriageways 10 (GetConnectedRoads three_carriageways 0 0)"
  have n: "\<not> mergeable_pair three_carriageways 10 (MergeSegregatedRoads three_carriageways 10 ?M)"
    by (simp add: three_carriageways_merged three_carriageways_merged_twice mergeable_pair_def
          CanMerge_def)
  from merge_segregated_roads_fixpoint [OF three_carriageways_sort n] n show ?thesis
    by simp
qed

section \<open>The range of angles and bearings\<close>

lemma in_closed_range_entry_allowed [simp]:
  "in_closed_range (r\<lparr>entry_allowed := b\<rparr>) = in_closed_range r"
  by (simp add: in_closed_range_def)

lemma in_closed_range_eid [simp]:
  "in_closed_range (r\<lparr>eid := e\<rparr>) = in_closed_range r"
  by (simp add: in_closed_range_def)

lemma all_in_range_update:
  assumes "\<forall>r\<in>set xs. in_closed_range r" "in_closed_range x"
  shows "\<forall>r\<in>set (xs[i := x]). in_closed_range r"
  using assms set_update_subset_insert [of xs i x] by auto

lemma scanned_road_in_range:
  assumes "\<forall>a b c. 0 \<le> computeAngle g a b c \<and> computeAngle g a b c \<le> 360"
    and "\<forall>a b. 0 \<le> calc_bearing g a b \<and> calc_bearing g a b \<le> 360"
  shows "in_closed_range (scanned_road g f v e)"
  using assms by (simp add: in_closed_range_def scanned_road_def connected_road_def Let_def)

lemma synthetic_uturn_in_range:
  assumes "\<forall>a b. 0 \<le> calc_bearing g a b \<and> calc_bearing g a b \<le> 360"
  shows "in_closed_range (synthetic_uturn g f v)"
  using assms by (simp add: in_closed_range_def synthetic_uturn_def connected_road_def Let_def)

lemma GetConnectedRoads_in_range:
  assumes "\<forall>a b c. 0 \<le> computeAngle g a b c \<and> computeAngle g a b c \<le> 360"
    and "\<forall>a b. 0 \<le> calc_bearing g a b \<and> calc_bearing g a b \<le> 360"
    and "\<forall>xs. mset (std_sort g xs) = mset xs"
  shows "\<forall>r\<in>set (GetConnectedRoads g f v). in_closed_range r"
proof -
  let ?s = "std_sort g (unsorted_roads g f v)"
  have "\<forall>r\<in>set (unsorted_roads g f v). in_closed_range r"
    using scanned_road_in_range [OF assms(1,2)] synthetic_uturn_in_range [OF assms(2)]
    by (auto simp: unsorted_roads_eq)
  moreover have "set ?s = set (unsorted_roads g f v)"
    using assms(3) by (metis set_mset_mset)
  ultimately have s: "\<forall>r\<in>set ?s. in_closed_range r" by simp
  have "\<forall>r\<in>set (?s[i := (?s ! i)\<lparr>entry_allowed := True\<rparr>]). in_closed_range r" for i
  proof (cases "i < length ?s")
    case True
    with s have "in_closed_range (?s ! i)" by simp
    with s show ?thesis by (intro all_in_range_update) simp_all
  next
    case False
    with s show ?thesis by (simp add: list_update_beyond)
  qed
  with s show ?thesis
    by (simp add: GetConnectedRoads_def Let_def)
qed

lemma GetConnectedRoads_sorted:
  assumes "\<forall>xs. sorted (map angle (std_sort g xs))"
  shows "sorted (map angle (GetConnectedRoads g f v))"
proof -
  have "(map angle xs)[i := angle (xs ! i)] = map angle xs" for xs :: Intersection and i
    by (cases "i < length xs") (simp_all add: list_update_same_conv list_update_beyond)
  with assms show ?thesis
    by (simp add: GetConnectedRoads_def Let_def map_update)
qed

lemma merge_in_range:
  assumes "\<forall>a b. 0 \<le> a \<and> a \<le> 360 \<and> 0 \<le> b \<and> b \<le> 360 \<longrightarrow>
             0 \<le> angleBetween g a b \<and> angleBetween g a b \<le> 360"
    and "in_closed_range x" "in_closed_range y"
  shows "in_closed_range (merge g x y)"
  using assms by (simp add: in_closed_range_def merge_def)

lemma CanMerge_length: "CanMerge g n xs i j \<Longrightarrow> 2 < length xs"
  by (simp add: CanMerge_def Let_def split: if_splits)

lemma nth_add_to_angles:
  "i < length xs \<Longrightarrow>
     add_to_angles lo hi c xs ! i =
       (if lo \<le> i \<and> i < hi then (xs ! i)\<lparr>angle := angle (xs ! i) + c\<rparr> else xs ! i)"
  by (simp add: add_to_angles_def)

lemma all_in_range_nth:
  "(\<forall>r\<in>set xs. in_closed_range r) = (\<forall>i<length xs. in_closed_range (xs ! i))"
  by (rule all_set_conv_all_nth)

lemma merge_first_in_range:
  assumes ab: "\<forall>a b. 0 \<le> a \<and> a \<le> 360 \<and> 0 \<le> b \<and> b \<le> 360 \<longrightarrow>
             0 \<le> angleBetween g a b \<and> angleBetween g a b \<le> 360"
    and r: "\<forall>r\<in>set xs. in_closed_range r"
    and s: "sorted (map angle xs)"
  shows "\<forall>r\<in>set (snd (merge_first g n xs)). in_closed_range r"
proof -
  have mono: "angle (xs ! i) \<le> angle (xs ! j)" if "i \<le> j" "j < length xs" for i j
    using s that by (simp add: sorted_iff_nth_mono)
  have rn: "in_closed_range (xs ! i)" if "i < length xs" for i
    using r that by simp
  consider (last) "CanMerge g n xs 0 (length xs - 1)"
    | (second) "\<not> CanMerge g n xs 0 (length xs - 1)" "CanMerge g n xs 0 1"
    | (none) "\<not> CanMerge g n xs 0 (length xs - 1)" "\<not> CanMerge g n xs 0 1"
    by blast
  then show ?thesis
  proof cases
    case last
    then have len: "2 < length xs" by (rule CanMerge_length)
    let ?c = "(360 - angle (xs ! (length xs - 1))) / 2"
    let ?ys = "add_to_angles 1 (length xs - 1) ?c xs"
    have c: "0 \<le> ?c" using rn [of "length xs - 1"] len by (simp add: in_closed_range_def)
    have ys: "in_closed_range (?ys ! i)" if i: "i < length xs" for i
    proof (cases "1 \<le> i \<and> i < length xs - 1")
      case True
      have "angle (xs ! i) \<le> angle (xs ! (length xs - 1))"
        using True len by (intro mono) simp_all
      moreover have "angle (xs ! (length xs - 1)) \<le> 360"
        using rn [of "length xs - 1"] len by (simp add: in_closed_range_def)
      ultimately have "angle (xs ! i) + ?c \<le> 360" by argo
      with c rn [OF i] True i show ?thesis
        by (simp add: nth_add_to_angles in_closed_range_def)
    next
      case False
      with rn [OF i] i show ?thesis by (auto simp: nth_add_to_angles)
    qed
    then have ysr: "\<forall>r\<in>set ?ys. in_closed_range r"
      by (simp add: all_in_range_nth)
    have "in_closed_range (merge g (?ys ! 0) (?ys ! (length ?ys - 1)))"
      using len by (intro merge_in_range [OF ab] ys) auto
    then have "in_closed_range ((merge g (?ys ! 0) (?ys ! (length ?ys - 1)))\<lparr>angle := 0\<rparr>)"
      by (simp add: in_closed_range_def)
    with ysr have "\<forall>r\<in>set (?ys[0 := (merge g (?ys ! 0) (?ys ! (length ?ys - 1)))\<lparr>angle := 0\<rparr>]).
                     in_closed_range r"
      by (rule all_in_range_update)
    then have "\<forall>r\<in>set (butlast (?ys[0 := (merge g (?ys ! 0) (?ys ! (length ?ys - 1)))\<lparr>angle := 0\<rparr>])).
                     in_closed_range r"
      by (meson in_set_butlastD)
    with last show ?thesis by (simp add: merge_first_def Let_def)
  next
    case second
    then have len: "2 < length xs" using CanMerge_length by blast
    let ?c = "angle (xs ! 1) / 2"
    let ?ys = "add_to_angles 2 (length xs) (- ?c) xs"
    have c: "0 \<le> ?c" using rn [of 1] len by (simp add: in_closed_range_def)
    have ys: "in_closed_range (?ys ! i)" if i: "i < length xs" for i
    proof (cases "2 \<le> i")
      case True
      have "angle (xs ! 1) \<le> angle (xs ! i)"
        using True i by (intro mono) simp_all
      with c have "0 \<le> angle (xs ! i) - ?c" by simp
      with c rn [OF i] True i show ?thesis
        by (simp add: nth_add_to_angles in_closed_range_def)
    next
      case False
      with rn [OF i] i show ?thesis by (simp add: nth_add_to_angles)
    qed
    then have ysr: "\<forall>r\<in>set ?ys. in_closed_range r"
      by (simp add: all_in_range_nth)
    have "in_closed_range (merge g (?ys ! 0) (?ys ! 1))"
      using len by (intro merge_in_range [OF ab] ys) auto
    then have "in_closed_range ((merge g (?ys ! 0) (?ys ! 1))\<lparr>angle := 0\<rparr>)"
      by (simp add: in_closed_range_def)
    with ysr have z: "\<forall>r\<in>set (?ys[0 := (merge g (?ys ! 0) (?ys ! 1))\<lparr>angle := 0\<rparr>]).
                     in_closed_range r"
      by (rule all_in_range_update)
    have "\<forall>r\<in>set (take 1 zs @ drop 2 zs). in_closed_range r"
      if "\<forall>r\<in>set zs. in_closed_range r" for zs
      using that by (auto dest: in_set_takeD in_set_dropD)
    from this [OF z] second show ?thesis by (simp add: merge_first_def Let_def)
  next
    case none
    with r show ?thesis by (simp add: merge_first_def)
  qed
qed

lemma getRight_less: "xs \<noteq> [] \<Longrightarrow> getRight xs k < length xs"
  by (simp add: getRight_def)

lemma sweep_in_range:
  "\<forall>a b. 0 \<le> a \<and> a \<le> 360 \<and> 0 \<le> b \<and> b \<le> 360 \<longrightarrow>
             0 \<le> angleBetween g a b \<and> angleBetween g a b \<le> 360 \<Longrightarrow>
   \<forall>r\<in>set xs. in_closed_range r \<Longrightarrow> \<forall>r\<in>set (sweep g n k xs). in_closed_range r"
proof (induction g n k xs rule: sweep.induct)
  case (1 g n k xs)
  show ?case
  proof (cases "k < length xs")
    case False
    with 1(4) show ?thesis by (subst sweep.simps) simp
  next
    case True
    let ?p = "getRight xs k"
    let ?ys = "xs[?p := merge g (xs ! ?p) (xs ! k)]"
    let ?zs = "?ys[k := (?ys ! k)\<lparr>eid := SPECIAL_EDGEID g\<rparr>]"
    from True have p: "?p < length xs" by (intro getRight_less) auto
    show ?thesis
    proof (cases "eid (xs ! ?p) \<noteq> SPECIAL_EDGEID g \<and> CanMerge g n xs k ?p")
      case False
      then have "sweep g n k xs = sweep g n (Suc k) xs"
        using True by (subst sweep.simps) (auto simp: Let_def)
      with 1(2) [OF True refl False] 1(3) 1(4) show ?thesis
        by simp
    next
      case c: True
      have "in_closed_range (merge g (xs ! ?p) (xs ! k))"
        using 1(3) 1(4) p True by (intro merge_in_range) simp_all
      with 1(4) have ys: "\<forall>r\<in>set ?ys. in_closed_range r"
        by (rule all_in_range_update)
      then have "in_closed_range (?ys ! k)" using True by simp
      then have "in_closed_range ((?ys ! k)\<lparr>eid := SPECIAL_EDGEID g\<rparr>)" by simp
      with ys have "\<forall>r\<in>set ?zs. in_closed_range r"
        by (rule all_in_range_update)
      moreover have "sweep g n k xs = sweep g n (Suc k) ?zs"
        using True c by (subst sweep.simps) (simp add: Let_def)
      ultimately show ?thesis
        using 1(1) [OF True refl c 1(3)] by simp
    qed
  qed
qed

lemma MergeSegregatedRoads_in_range:
  assumes ab: "\<forall>a b. 0 \<le> a \<and> a \<le> 360 \<and> 0 \<le> b \<and> b \<le> 360 \<longrightarrow>
             0 \<le> angleBetween g a b \<and> angleBetween g a b \<le> 360"
    and perm: "\<forall>xs. mset (std_sort g xs) = mset xs"
    and r: "\<forall>r\<in>set xs. in_closed_range r"
    and s: "sorted (map angle xs)"
  shows "\<forall>r\<in>set (MergeSegregatedRoads g n xs). in_closed_range r"
proof (cases "length xs \<le> 1")
  case True
  with r show ?thesis by (simp add: MergeSegregatedRoads_def)
next
  case False
  let ?ys = "snd (merge_first g n xs)"
  let ?zs = "if fst (merge_first g n xs) \<and>
                list_ex (\<lambda>road. roundabout (GetEdgeData g (eid road))) xs
             then ?ys[0 := (?ys ! 0)\<lparr>entry_allowed := False\<rparr>] else ?ys"
  have ys: "\<forall>r\<in>set ?ys. in_closed_range r"
    using ab r s by (rule merge_first_in_range)
  have "\<forall>r\<in>set (?ys[0 := (?ys ! 0)\<lparr>entry_allowed := False\<rparr>]). in_closed_range r"
  proof (cases "0 < length ?ys")
    case True
    with ys have "in_closed_range ((?ys ! 0)\<lparr>entry_allowed := False\<rparr>)" by simp
    with ys show ?thesis by (rule all_in_range_update)
  next
    case False
    then show ?thesis by simp
  qed
  with ys have "\<forall>r\<in>set ?zs. in_closed_range r" by simp
  then have "\<forall>r\<in>set (sweep g n 2 ?zs). in_closed_range r"
    by (rule sweep_in_range [OF ab])
  then have "\<forall>r\<in>set (filter (\<lambda>road. eid road \<noteq> SPECIAL_EDGEID g) (sweep g n 2 ?zs)).
               in_closed_range r"
    by simp
  moreover have "set (std_sort g ws) = set ws" for ws
    using perm by (metis set_mset_mset)
  ultimately show ?thesis
    using False by (simp add: MergeSegregatedRoads_def Let_def)
qed

lemma adjustAngle_in_range:
  assumes "0 \<le> a" "a \<le> 360" "- 360 \<le> c" "c \<le> 360"
  shows "0 \<le> adjustAngle a c \<and> adjustAngle a c \<le> 360"
  using assms by (simp add: adjustAngle_def)

lemma get_corrected_offset_bounds:
  assumes dev: "\<forall>a b. 0 \<le> a \<and> a \<le> 360 \<and> 0 \<le> b \<and> b \<le> 360 \<longrightarrow>
             0 \<le> angularDeviation g a b \<and> angularDeviation g a b \<le> 180"
    and "0 \<le> offset" "offset \<le> 90" "in_closed_range road" "in_closed_range other"
  shows "0 \<le> get_corrected_offset g offset road other \<and>
         get_corrected_offset g offset road other \<le> 90"
proof -
  have "0 \<le> angularDeviation g (angle road) (angle other) \<and>
        angularDeviation g (angle road) (angle other) \<le> 180"
    using dev assms(4,5) by (simp add: in_closed_range_def)
  with assms(2,3) show ?thesis
    by (simp add: get_corrected_offset_def Let_def)
qed

lemma get_offset_bounds:
  assumes dev: "\<forall>a b. 0 \<le> a \<and> a \<le> 360 \<and> 0 \<le> b \<and> b \<le> 360 \<longrightarrow>
             0 \<le> angularDeviation g a b \<and> angularDeviation g a b \<le> 180"
    and "in_closed_range lhs" "in_closed_range rhs"
  shows "0 \<le> get_offset g lhs rhs \<and> get_offset g lhs rhs \<le> 90"
proof -
  have "0 \<le> angularDeviation g (angle lhs) (angle rhs) \<and>
        angularDeviation g (angle lhs) (angle rhs) \<le> 180"
    using dev assms(2,3) by (simp add: in_closed_range_def)
  then show ?thesis
    by (simp add: get_offset_def)
qed

lemma adjusted_in_range:
  assumes "in_closed_range road" "0 \<le> c" "c \<le> 90"
  shows "in_closed_range (road\<lparr>angle := adjustAngle (angle road) c,
                               bearing := adjustAngle (bearing road) c\<rparr>)"
    and "in_closed_range (road\<lparr>angle := adjustAngle (angle road) (- c),
                               bearing := adjustAngle (bearing road) (- c)\<rparr>)"
  using assms adjustAngle_in_range [of "angle road" c] adjustAngle_in_range [of "bearing road" c]
    adjustAngle_in_range [of "angle road" "- c"] adjustAngle_in_range [of "bearing road" "- c"]
  by (simp_all add: in_closed_range_def)

lemma adjust_road_in_range:
  assumes dev: "\<forall>a b. 0 \<le> a \<and> a \<le> 360 \<and> 0 \<le> b \<and> b \<le> 360 \<longrightarrow>
             0 \<le> angularDeviation g a b \<and> angularDeviation g a b \<le> 180"
    and raw: "\<forall>f v. \<forall>r\<in>set (GetConnectedRoads g f v). in_closed_range r"
    and r: "\<forall>r\<in>set xs. in_closed_range r"
    and k: "k < length xs"
  shows "\<forall>r\<in>set (adjust_road g n k xs). in_closed_range r"
proof -
  let ?road = "xs ! k"
  let ?next = "GetConnectedRoads g n (eid ?road)"
  let ?n2 = "GetTarget g (eid ?road)"
  have road: "in_closed_range ?road" using r k by simp
  have "(k + 1) mod length xs < length xs"
    using k by (intro mod_less_divisor) auto
  then have right: "in_closed_range (xs ! ((k + 1) mod length xs))"
    using r nth_mem by blast
  have left: "in_closed_range (xs ! (k - 1))"
    using r k by simp
  have nx: "in_closed_range (?next ! i)" if "i < length ?next" for i
    using raw that nth_mem by blast
  consider (skip) "skips_road g n ?road"
    | (first) "\<not> skips_road g n ?road" "CanMerge g ?n2 ?next 0 1"
    | (last) "\<not> skips_road g n ?road" "\<not> CanMerge g ?n2 ?next 0 1"
        "CanMerge g ?n2 ?next 0 (length ?next - 1)"
    | (none) "\<not> skips_road g n ?road" "\<not> CanMerge g ?n2 ?next 0 1"
        "\<not> CanMerge g ?n2 ?next 0 (length ?next - 1)"
    by blast
  then show ?thesis
  proof cases
    case skip
    with r show ?thesis by (simp add: adjust_road_def)
  next
    case first
    then have len: "2 < length ?next" using CanMerge_length by blast
    let ?offset = "get_offset g (?next ! 0) (?next ! 1)"
    let ?c = "get_corrected_offset g ?offset ?road (xs ! ((k + 1) mod length xs))"
    have "0 \<le> ?offset \<and> ?offset \<le> 90"
      using len by (intro get_offset_bounds [OF dev] nx) auto
    then have "0 \<le> ?c \<and> ?c \<le> 90"
      using road right by (intro get_corrected_offset_bounds [OF dev]) simp_all
    then have "in_closed_range (?road\<lparr>angle := adjustAngle (angle ?road) ?c,
                                       bearing := adjustAngle (bearing ?road) ?c\<rparr>)"
      using road by (intro adjusted_in_range) simp_all
    with r have "\<forall>r\<in>set (xs[k := ?road\<lparr>angle := adjustAngle (angle ?road) ?c,
                                       bearing := adjustAngle (bearing ?road) ?c\<rparr>]).
                   in_closed_range r"
      by (rule all_in_range_update)
    with first show ?thesis by (simp add: adjust_road_def Let_def)
  next
    case last
    then have len: "2 < length ?next" using CanMerge_length by blast
    let ?offset = "get_offset g (?next ! 0) (?next ! (length ?next - 1))"
    let ?c = "get_corrected_offset g ?offset ?road (xs ! (k - 1))"
    have "0 \<le> ?offset \<and> ?offset \<le> 90"
      using len by (intro get_offset_bounds [OF dev] nx) auto
    then have "0 \<le> ?c \<and> ?c \<le> 90"
      using road left by (intro get_corrected_offset_bounds [OF dev]) simp_all
    then have "in_closed_range (?road\<lparr>angle := adjustAngle (angle ?road) (- ?c),
                                       bearing := adjustAngle (bearing ?road) (- ?c)\<rparr>)"
      using road by (intro adjusted_in_range) simp_all
    with r have "\<forall>r\<in>set (xs[k := ?road\<lparr>angle := adjustAngle (angle ?road) (- ?c),
                                       bearing := adjustAngle (bearing ?road) (- ?c)\<rparr>]).
                   in_closed_range r"
      by (rule all_in_range_update)
    with last show ?thesis by (simp add: adjust_road_def Let_def)
  next
    case none
    with r show ?thesis by (simp add: adjust_road_def Let_def)
  qed
qed

lemma adjust_loop_in_range:
  "\<forall>a b. 0 \<le> a \<and> a \<le> 360 \<and> 0 \<le> b \<and> b \<le> 360 \<longrightarrow>
             0 \<le> angularDeviation g a b \<and> angularDeviation g a b \<le> 180 \<Longrightarrow>
   \<forall>f v. \<forall>r\<in>set (GetConnectedRoads g f v). in_closed_range r \<Longrightarrow>
   \<forall>r\<in>set xs. in_closed_range r \<Longrightarrow>
   \<forall>r\<in>set (adjust_loop g n k xs). in_closed_range r"
proof (induction g n k xs rule: adjust_loop.induct)
  case (1 g n k xs)
  show ?case
  proof (cases "k < length xs")
    case True
    have "\<forall>r\<in>set (adjust_road g n k xs). in_closed_range r"
      using 1(2) 1(3) 1(4) True by (rule adjust_road_in_range)
    from 1(1) [OF True 1(2) 1(3) this] True show ?thesis
      by (subst adjust_loop.simps) simp
  next
    case False
    with 1(4) show ?thesis by (subst adjust_loop.simps) simp
  qed
qed

text \<open>
  Claim C3, as stated, fails on the code. On the joining roads the bearing at edge 2 is
  340 degrees and the adjustment adds 20 degrees; \<open>adjustAngle\<close> subtracts 360 only from
  values above 360, so the bearing of the returned entry is 360, outside the half-open
  range.
\<close>

theorem bearing_360_counterexample:
  "bearing (GetConnectedRoads joining_roads 0 0 ! 1) = 340 \<and>
   generate joining_roads 0 0 =
     [connected_road joining_roads 11 0 170 False,
      connected_road joining_roads 2 120 360 True,
      connected_road joining_roads 3 200 80 True] \<and>
   bearing (generate joining_roads 0 0 ! 1) = 360 \<and>
   \<not> bearing (generate joining_roads 0 0 ! 1) < 360"
  by (simp add: joining_roads_generate joining_roads_raw connected_road_def)

text \<open>
  Claim C3, amended: in the raw, the merged and the adjusted intersection every angle
  and every bearing lies in the closed range from 0 to 360, and so do those of an entry
  produced by the pairwise merge of two such entries. This holds provided
  \<open>computeAngle\<close> and the bearing function return values in that range,
  \<open>angleBetween\<close> maps two values of the range into it, \<open>angularDeviation\<close> of two
  values of the range lies between 0 and 180, and \<^verbatim>\<open>std::sort\<close> returns its input
  sorted by angle.
\<close>

theorem angles_and_bearings_in_closed_range:
  assumes "\<forall>a b c. 0 \<le> computeAngle g a b c \<and> computeAngle g a b c \<le> 360"
    and "\<forall>a b. 0 \<le> calc_bearing g a b \<and> calc_bearing g a b \<le> 360"
    and "\<forall>a b. 0 \<le> a \<and> a \<le> 360 \<and> 0 \<le> b \<and> b \<le> 360 \<longrightarrow>
             0 \<le> angleBetween g a b \<and> angleBetween g a b \<le> 360"
    and "\<forall>a b. 0 \<le> a \<and> a \<le> 360 \<and> 0 \<le> b \<and> b \<le> 360 \<longrightarrow>
             0 \<le> angularDeviation g a b \<and> angularDeviation g a b \<le> 180"
    and "\<forall>xs. mset (std_sort g xs) = mset xs"
    and "\<forall>xs. sorted (map angle (std_sort g xs))"
  shows "(\<forall>r\<in>set (GetConnectedRoads g from_node via_eid). in_closed_range r) \<and>
         (\<forall>r\<in>set (MergeSegregatedRoads g (GetTarget g via_eid)
                     (GetConnectedRoads g from_node via_eid)). in_closed_range r) \<and>
         (\<forall>r\<in>set (generate g from_node via_eid). in_closed_range r) \<and>
         (\<forall>x y. in_closed_range x \<and> in_closed_range y \<longrightarrow> in_closed_range (merge g x y))"
proof -
  have raw: "\<forall>r\<in>set (GetConnectedRoads g f v). in_closed_range r" for f v
    using assms(1,2,5) by (rule GetConnectedRoads_in_range)
  have merged: "\<forall>r\<in>set (MergeSegregatedRoads g (GetTarget g via_eid)
                     (GetConnectedRoads g from_node via_eid)). in_closed_range r"
    using assms(3,5) raw GetConnectedRoads_sorted [OF assms(6)]
    by (rule MergeSegregatedRoads_in_range)
  have "\<forall>r\<in>set (AdjustForJoiningRoads g n xs). in_closed_range r"
    if "\<forall>r\<in>set xs. in_closed_range r" for n xs
    using that adjust_loop_in_range [OF assms(4) _ that, of n 1] raw
    by (simp add: AdjustForJoiningRoads_def)
  from this [OF merged] raw merged merge_in_range [OF assms(3)] show ?thesis
    by (simp add: generate_def Let_def)
qed

theorem angles_and_bearings_in_closed_range_witness:
  "length (generate joining_roads 0 0) = 3 \<and>
   in_closed_range (generate joining_roads 0 0 ! 0) \<and>
   in_closed_range (generate joining_roads 0 0 ! 1) \<and>
   in_closed_range (generate joining_roads 0 0 ! 2)"
proof -
  have len: "length (generate joining_roads 0 0) = 3"
    by (simp add: joining_roads_generate)
  have "\<forall>r\<in>set (generate joining_roads 0 0). in_closed_range r"
    using angles_and_bearings_in_closed_range
      [OF joining_roads_geometry network_contracts(1,2,3,4) [OF joining_roads_def], of 0 0]
    by blast
  with len show ?thesis
    by (simp add: all_set_conv_all_nth)
qed

end
